theory Spec2Isabelle
  imports Main
begin

section \<open>Python exceptions and the debugger interface\<close>

text \<open>
  Every exception the two modules can raise is a value.  The three explicit
  \<^verbatim>\<open>raise\<close> statements of \<^verbatim>\<open>deref.py\<close> carry their message; the implicit ones
  (\<^verbatim>\<open>None + 1\<close>, a missing dictionary key, \<^verbatim>\<open>None.group()\<close>, ...) carry a short
  description of the failing expression.
\<close>

datatype error =
    ValueError string
  | IndexError string
  | GdbError string
  | KeyError string
  | TypeError string
  | AttributeError string

definition msg_shape_needed :: string where
  "msg_shape_needed = ''Array shape must be specified for pointer type.''"

definition msg_insufficient :: string where
  "msg_insufficient =
     ''Insufficient number of bounds. A bound is needed for each dimension corresponding to a * or [].''"

definition msg_missing_dims :: string where
  "msg_missing_dims = ''Missing array dimensions. All array dimensions must be declared as const. ''"

definition msg_not_all_used :: string where
  "msg_not_all_used = ''Not all of the bounds are used.''"

text \<open>The numpy storage types of \<^verbatim>\<open>_type_list\<close>.\<close>

datatype np_dtype = uint8 | uint32 | int8 | int16 | int32 | float32 | float64

text \<open>
  The \<^verbatim>\<open>gdb\<close> module is not part of the repository: what the code uses of it is a
  parameter.  \<open>'v\<close> is \<^verbatim>\<open>gdb.Value\<close>, \<open>'n\<close> the numbers a numpy cell holds.
  \<^item> \<open>parse_and_eval\<close>: \<^verbatim>\<open>gdb.parse_and_eval(var)\<close>;
  \<^item> \<open>type_name\<close>: \<^verbatim>\<open>str(val.type.strip_typedefs().unqualified())\<close>, as in \<^verbatim>\<open>_get_type\<close>;
  \<^item> \<open>type_name_uq\<close>: \<^verbatim>\<open>str(val.type.unqualified().strip_typedefs())\<close>, the order
    \<^verbatim>\<open>DeRefArr._update\<close> uses;
  \<^item> \<open>index\<close>: \<^verbatim>\<open>val[i]\<close>; \<open>field\<close>: \<^verbatim>\<open>val['name']\<close>;
  \<^item> \<open>ptr_diff a b\<close>: \<^verbatim>\<open>a - b\<close> on two pointer values, read as an integer;
  \<^item> \<open>cast t v\<close>: \<^verbatim>\<open>t(v)\<close> for a numpy scalar type \<open>t\<close>.
\<close>

record ('v, 'n) gdb =
  parse_and_eval :: "string \<Rightarrow> error + 'v"
  type_name :: "'v \<Rightarrow> string"
  type_name_uq :: "'v \<Rightarrow> string"
  index :: "'v \<Rightarrow> int \<Rightarrow> 'v"
  field :: "'v \<Rightarrow> string \<Rightarrow> 'v"
  ptr_diff :: "'v \<Rightarrow> 'v \<Rightarrow> int"
  cast :: "np_dtype \<Rightarrow> 'v \<Rightarrow> 'n"

section \<open>The three regular expressions\<close>

definition is_digit :: "char \<Rightarrow> bool" where
  "is_digit c \<longleftrightarrow> c \<in> set ''0123456789''"

text \<open>\<^verbatim>\<open>$\<close> without \<^verbatim>\<open>re.MULTILINE\<close>: the end of the string, or just before a newline
  that ends the string.\<close>

definition at_end :: "string \<Rightarrow> bool" where
  "at_end s \<longleftrightarrow> s = [] \<or> s = [CHR 0x0A]"

text \<open>
  \<^verbatim>\<open>(?:\[\d*\])+$\<close> anchored at the head of a string.  \<open>in_group\<close> reads on after
  an opening bracket, \<open>after_group\<close> after a closing one.  A character of a group
  is a digit or a bracket, so the greedy repetitions never have to give anything
  back: the two functions follow the only way the pattern can match.
\<close>

fun in_group :: "string \<Rightarrow> bool" and after_group :: "string \<Rightarrow> bool" where
  "in_group [] = False"
| "in_group (c # cs) =
     (if is_digit c then in_group cs
      else if c = CHR '']'' then after_group cs
      else False)"
| "after_group [] = True"
| "after_group (c # cs) =
     (if c = CHR ''['' then in_group cs else at_end (c # cs))"

definition groups_to_end :: "string \<Rightarrow> bool" where
  "groups_to_end s = (case s of [] \<Rightarrow> False | c # cs \<Rightarrow> c = CHR ''['' \<and> in_group cs)"

text \<open>The text of a match that ends at \<^verbatim>\<open>$\<close>: the newline \<^verbatim>\<open>$\<close> may stand before is
  not part of it.\<close>

definition match_text :: "string \<Rightarrow> string" where
  "match_text s = (if s \<noteq> [] \<and> last s = CHR 0x0A then butlast s else s)"

text \<open>\<^verbatim>\<open>DeRefPtr.pattern.search(s)\<close> for \<^verbatim>\<open>\*$|\*\)(?:\[\d*\])+$\<close>; only whether it
  matches is used.\<close>

fun ptr_search :: "string \<Rightarrow> bool" where
  "ptr_search [] = False"
| "ptr_search (c # cs) =
     ((c = CHR ''*'' \<and>
        (at_end cs \<or> (case cs of [] \<Rightarrow> False | d # ds \<Rightarrow> d = CHR '')'' \<and> groups_to_end ds)))
      \<or> ptr_search cs)"

text \<open>\<^verbatim>\<open>DeRefArr.pattern.search(s)\<close> for \<^verbatim>\<open>(?:\[\d*\])+$\<close>: the text of the leftmost
  match, \<^verbatim>\<open>match.group()\<close>, or \<open>None\<close>.\<close>

fun arr_search :: "string \<Rightarrow> string option" where
  "arr_search [] = None"
| "arr_search (c # cs) =
     (if groups_to_end (c # cs) then Some (match_text (c # cs)) else arr_search cs)"

text \<open>\<^verbatim>\<open>DeRefVec.pattern.search(s)\<close> for \<^verbatim>\<open>^(std::vector)\<close>.\<close>

definition vec_search :: "string \<Rightarrow> bool" where
  "vec_search s \<longleftrightarrow> take 11 s = ''std::vector''"

text \<open>\<^verbatim>\<open>re.search('(?:\[\])+', s)\<close>: an opening bracket directly followed by a
  closing one, anywhere.\<close>

fun has_empty_dim :: "string \<Rightarrow> bool" where
  "has_empty_dim [] = False"
| "has_empty_dim [c] = False"
| "has_empty_dim (c # d # cs) =
     ((c = CHR ''['' \<and> d = CHR '']'') \<or> has_empty_dim (d # cs))"

section \<open>String helpers of \<^verbatim>\<open>DeRefArr._update\<close>\<close>

text \<open>\<^verbatim>\<open>s.split('][')\<close>.\<close>

fun split_brackets :: "string \<Rightarrow> string list" where
  "split_brackets [] = [[]]"
| "split_brackets [c] = [[c]]"
| "split_brackets (c # d # cs) =
     (if c = CHR '']'' \<and> d = CHR ''['' then [] # split_brackets cs
      else (case split_brackets (d # cs) of
              [] \<Rightarrow> [[c]]
            | p # ps \<Rightarrow> (c # p) # ps))"

definition digit_val :: "char \<Rightarrow> int" where
  "digit_val c = int (of_char c) - 48"

text \<open>\<^verbatim>\<open>int(s)\<close> on a string of decimal digits.  Python accepts more (a sign,
  surrounding blanks); such strings raise here, and none of them can come out of
  a bracket group.\<close>

definition py_int :: "string \<Rightarrow> error + int" where
  "py_int s =
     (if s \<noteq> [] \<and> (\<forall>c \<in> set s. is_digit c)
      then Inr (foldl (\<lambda>a c. 10 * a + digit_val c) 0 s)
      else Inl (ValueError ''invalid literal for int() with base 10''))"

section \<open>\<^verbatim>\<open>deref.py\<close>: the dereferencing classes\<close>

datatype ref_type = DeRefPtr | DeRefArr | DeRefVec

text \<open>The attributes of an instance that are read after construction.  \<^verbatim>\<open>_shape\<close>
  is the constructor's \<open>shape\<close> argument and stays a parameter; \<^verbatim>\<open>_arg_no\<close> is
  the constant 1.  The cursor \<open>shape_ind\<close> only ever holds \<open>None\<close> or a count that
  started at 0 and grew, so it is a natural number.\<close>

record 'v DeRefBase =
  bounds :: "int list"
  val :: 'v
  shape_ind :: "nat option"

definition DeRefBase_init :: "'v \<Rightarrow> nat option \<Rightarrow> 'v DeRefBase" where
  "DeRefBase_init v si = \<lparr>bounds = [], val = v, shape_ind = si\<rparr>"

definition get_range_from_shape ::
  "'v DeRefBase \<Rightarrow> int list option \<Rightarrow> nat \<Rightarrow> error + 'v DeRefBase" where
  "get_range_from_shape self shape arg_no =
     (case shape_ind self of
        None \<Rightarrow> Inl (TypeError ''unsupported operand type(s) for +: NoneType and int'')
      | Some si \<Rightarrow>
          (let end_ind = si + arg_no in
           case shape of
             None \<Rightarrow> Inl (TypeError ''object of type NoneType has no len()'')
           | Some sh \<Rightarrow>
               if end_ind > length sh then Inl (IndexError msg_insufficient)
               else Inr (self\<lparr>bounds := take (end_ind - si) (drop si sh),
                               shape_ind := Some end_ind\<rparr>)))"

text \<open>\<^verbatim>\<open>indices[0]\<close> raises on an empty sequence.\<close>

definition first_index :: "int list \<Rightarrow> error + int" where
  "first_index indices =
     (case indices of [] \<Rightarrow> Inl (IndexError ''index out of range'') | i # _ \<Rightarrow> Inr i)"

definition DeRefPtr_deref :: "('v, 'n) gdb \<Rightarrow> 'v \<Rightarrow> int list \<Rightarrow> error + 'v" where
  "DeRefPtr_deref g v indices =
     (case first_index indices of Inl e \<Rightarrow> Inl e | Inr i \<Rightarrow> Inr (index g v i))"

definition DeRefArr_deref :: "('v, 'n) gdb \<Rightarrow> 'v \<Rightarrow> int list \<Rightarrow> error + 'v" where
  "DeRefArr_deref g v indices =
     (case first_index indices of Inl e \<Rightarrow> Inl e | Inr i \<Rightarrow> Inr (index g v i))"

definition DeRefVec_deref :: "('v, 'n) gdb \<Rightarrow> 'v \<Rightarrow> int list \<Rightarrow> error + 'v" where
  "DeRefVec_deref g v indices =
     (case first_index indices of
        Inl e \<Rightarrow> Inl e
      | Inr i \<Rightarrow> Inr (index g (field g (field g v ''_M_impl'') ''_M_start'') i))"

definition DeRefPtr_update ::
  "('v, 'n) gdb \<Rightarrow> 'v DeRefBase \<Rightarrow> int list option \<Rightarrow> error + 'v DeRefBase" where
  "DeRefPtr_update g self shape =
     (case DeRefPtr_deref g (val self) [0] of
        Inl e \<Rightarrow> Inl e
      | Inr v \<Rightarrow> get_range_from_shape (self\<lparr>val := v\<rparr>) shape 1)"

definition DeRefPtr_init ::
  "('v, 'n) gdb \<Rightarrow> 'v \<Rightarrow> nat option \<Rightarrow> int list option \<Rightarrow> error + 'v DeRefBase" where
  "DeRefPtr_init g v si shape =
     (let self = DeRefBase_init v si in
      if shape = None then Inl (ValueError msg_shape_needed)
      else DeRefPtr_update g self shape)"

definition DeRefArr_update :: "('v, 'n) gdb \<Rightarrow> 'v DeRefBase \<Rightarrow> error + 'v DeRefBase" where
  "DeRefArr_update g self =
     (let v = val self; arr_type = type_name_uq g v in
      if has_empty_dim arr_type then Inl (GdbError msg_missing_dims)
      else
        case arr_search arr_type of
          None \<Rightarrow> Inl (AttributeError ''NoneType object has no attribute group'')
        | Some m \<Rightarrow>
            (let b = butlast (tl m); bs = split_brackets b; b0 = hd bs in
             case py_int b0 of
               Inl e \<Rightarrow> Inl e
             | Inr n \<Rightarrow>
                 (case DeRefArr_deref g v [0] of
                    Inl e \<Rightarrow> Inl e
                  | Inr v' \<Rightarrow> Inr (self\<lparr>bounds := [n], val := v'\<rparr>))))"

definition DeRefArr_init ::
  "('v, 'n) gdb \<Rightarrow> 'v \<Rightarrow> nat option \<Rightarrow> int list option \<Rightarrow> error + 'v DeRefBase" where
  "DeRefArr_init g v si shape = DeRefArr_update g (DeRefBase_init v si)"

definition DeRefVec_update :: "('v, 'n) gdb \<Rightarrow> 'v DeRefBase \<Rightarrow> error + 'v DeRefBase" where
  "DeRefVec_update g self =
     (let v = val self in
      case DeRefVec_deref g v [0] of
        Inl e \<Rightarrow> Inl e
      | Inr v' \<Rightarrow>
          (let v_start = field g (field g v ''_M_impl'') ''_M_start'';
               v_end = field g (field g v ''_M_impl'') ''_M_finish''
           in Inr (self\<lparr>val := v', bounds := [ptr_diff g v_end v_start]\<rparr>)))"

definition DeRefVec_init ::
  "('v, 'n) gdb \<Rightarrow> 'v \<Rightarrow> nat option \<Rightarrow> int list option \<Rightarrow> error + 'v DeRefBase" where
  "DeRefVec_init g v si shape = DeRefVec_update g (DeRefBase_init v si)"

text \<open>Dispatch on the class: \<^verbatim>\<open>ref_type.pattern.search\<close>, \<^verbatim>\<open>ref_type(val, shape_ind, shape)\<close>
  and the bound method \<^verbatim>\<open>deref_ptr.deref\<close>, which reads nothing of its instance.\<close>

fun pattern_search :: "ref_type \<Rightarrow> string \<Rightarrow> bool" where
  "pattern_search DeRefPtr s = ptr_search s"
| "pattern_search DeRefArr s = (arr_search s \<noteq> None)"
| "pattern_search DeRefVec s = vec_search s"

fun construct ::
  "('v, 'n) gdb \<Rightarrow> ref_type \<Rightarrow> 'v \<Rightarrow> nat option \<Rightarrow> int list option \<Rightarrow> error + 'v DeRefBase" where
  "construct g DeRefPtr v si shape = DeRefPtr_init g v si shape"
| "construct g DeRefArr v si shape = DeRefArr_init g v si shape"
| "construct g DeRefVec v si shape = DeRefVec_init g v si shape"

fun method_deref :: "('v, 'n) gdb \<Rightarrow> ref_type \<Rightarrow> 'v \<Rightarrow> int list \<Rightarrow> error + 'v" where
  "method_deref g DeRefPtr v indices = DeRefPtr_deref g v indices"
| "method_deref g DeRefArr v indices = DeRefArr_deref g v indices"
| "method_deref g DeRefVec v indices = DeRefVec_deref g v indices"

section \<open>\<^verbatim>\<open>gdb_numpy.py\<close>: the driver\<close>

definition type_list :: "string \<rightharpoonup> np_dtype" where
  "type_list =
     [''unsigned char'' \<mapsto> uint8, ''unsigned int'' \<mapsto> uint32, ''char'' \<mapsto> int8,
      ''short'' \<mapsto> int16, ''int'' \<mapsto> int32, ''float'' \<mapsto> float32, ''double'' \<mapsto> float64]"

definition ptr_list :: "ref_type list" where
  "ptr_list = [DeRefPtr, DeRefArr]"

definition container_list :: "ref_type list" where
  "container_list = [DeRefVec]"

definition get_type :: "('v, 'n) gdb \<Rightarrow> 'v \<Rightarrow> string" where
  "get_type g v = type_name g v"

text \<open>The local variables of \<^verbatim>\<open>_get_deref_funcs\<close>.  The three lists are the ones
  \<^verbatim>\<open>_deref\<close> appends to in place.\<close>

record 'v locals =
  l_val :: 'v
  l_arr_type :: string
  l_old_type :: "string option"
  l_shape_ind :: "nat option"
  l_deref_func :: "ref_type list"
  l_bounds :: "int list"
  l_arg_no :: "nat list"

text \<open>
  \<^verbatim>\<open>_deref(type_list, val, deref_func, bounds, arg_no, shape_ind, shape)\<close>: the loop
  over the classes, as a recursion on the list.  Its local \<^verbatim>\<open>arr_type\<close> is
  \<^verbatim>\<open>_get_type(val)\<close> at every test.  The result is the state with \<open>l_val\<close>,
  \<open>l_shape_ind\<close> and the three lists updated.
\<close>

fun deref ::
  "('v, 'n) gdb \<Rightarrow> ref_type list \<Rightarrow> int list option \<Rightarrow> 'v locals \<Rightarrow> error + 'v locals" where
  "deref g [] shape st = Inr st"
| "deref g (r # rs) shape st =
     (if pattern_search r (get_type g (l_val st)) then
        (case construct g r (l_val st) (l_shape_ind st) shape of
           Inl e \<Rightarrow> Inl e
         | Inr deref_ptr \<Rightarrow>
             deref g rs shape
               (st\<lparr>l_val := val deref_ptr,
                   l_shape_ind := shape_ind deref_ptr,
                   l_deref_func := l_deref_func st @ [r],
                   l_bounds := l_bounds st @ bounds deref_ptr,
                   l_arg_no := l_arg_no st @ [length (bounds deref_ptr)]\<rparr>))
      else deref g rs shape st)"

text \<open>The inner \<^verbatim>\<open>while(arr_type != old_type)\<close> of \<^verbatim>\<open>_get_deref_funcs\<close>.\<close>

partial_function (option) inner_loop ::
  "('v, 'n) gdb \<Rightarrow> int list option \<Rightarrow> 'v locals \<Rightarrow> (error + 'v locals) option" where
  "inner_loop g shape st =
     (if Some (l_arr_type st) \<noteq> l_old_type st then
        (let t = get_type g (l_val st);
             st1 = st\<lparr>l_arr_type := t, l_old_type := Some t\<rparr>
         in case deref g ptr_list shape st1 of
              Inl e \<Rightarrow> Some (Inl e)
            | Inr st2 \<Rightarrow> inner_loop g shape st2)
      else Some (Inr st))"

text \<open>The outer \<^verbatim>\<open>while(arr_type != old_type)\<close>.\<close>

partial_function (option) outer_loop ::
  "('v, 'n) gdb \<Rightarrow> int list option \<Rightarrow> 'v locals \<Rightarrow> (error + 'v locals) option" where
  "outer_loop g shape st =
     (if Some (l_arr_type st) \<noteq> l_old_type st then
        (case inner_loop g shape st of
           None \<Rightarrow> None
         | Some (Inl e) \<Rightarrow> Some (Inl e)
         | Some (Inr st1) \<Rightarrow>
             (case deref g container_list shape st1 of
                Inl e \<Rightarrow> Some (Inl e)
              | Inr st2 \<Rightarrow>
                  outer_loop g shape (st2\<lparr>l_arr_type := get_type g (l_val st2)\<rparr>)))
      else Some (Inr st))"

text \<open>Python truth of \<^verbatim>\<open>shape\<close> (\<open>None\<close> and the empty sequence are false) and of
  \<^verbatim>\<open>shape_ind\<close> (\<open>None\<close> and 0 are false).\<close>

definition shape_truthy :: "int list option \<Rightarrow> bool" where
  "shape_truthy shape \<longleftrightarrow> (case shape of None \<Rightarrow> False | Some sh \<Rightarrow> sh \<noteq> [])"

definition shape_ind_truthy :: "nat option \<Rightarrow> bool" where
  "shape_ind_truthy si \<longleftrightarrow> (case si of None \<Rightarrow> False | Some n \<Rightarrow> n \<noteq> 0)"

text \<open>The tail of \<^verbatim>\<open>_get_deref_funcs\<close>: the lines it prints.\<close>

definition surplus_notice :: "nat option \<Rightarrow> int list option \<Rightarrow> error + string list" where
  "surplus_notice si shape =
     (if shape_ind_truthy si then
        (case shape of
           None \<Rightarrow> Inl (TypeError ''object of type NoneType has no len()'')
         | Some sh \<Rightarrow> Inr (if si \<noteq> Some (length sh) then [msg_not_all_used] else []))
      else Inr [])"

text \<open>\<^verbatim>\<open>_get_deref_funcs(val, shape)\<close>: the returned tuple, and the printed lines.\<close>

definition get_deref_funcs ::
  "('v, 'n) gdb \<Rightarrow> 'v \<Rightarrow> int list option \<Rightarrow>
     (error + (ref_type list \<times> nat list \<times> int list \<times> string) \<times> string list) option" where
  "get_deref_funcs g v shape =
     (let st0 = \<lparr>l_val = v, l_arr_type = get_type g v, l_old_type = None,
                 l_shape_ind = (if shape_truthy shape then Some 0 else None),
                 l_deref_func = [], l_bounds = [], l_arg_no = []\<rparr>
      in case outer_loop g shape st0 of
           None \<Rightarrow> None
         | Some (Inl e) \<Rightarrow> Some (Inl e)
         | Some (Inr st) \<Rightarrow>
             (case surplus_notice (l_shape_ind st) shape of
                Inl e \<Rightarrow> Some (Inl e)
              | Inr out \<Rightarrow>
                  Some (Inr ((l_deref_func st, l_arg_no st, l_bounds st, l_arr_type st), out))))"

section \<open>\<^verbatim>\<open>gdb_numpy.py\<close>: \<^verbatim>\<open>to_array\<close>\<close>

text \<open>A numpy array: its storage type, its shape, and its cells by index tuple.\<close>

record 'n narray =
  dtype :: np_dtype
  shape_of :: "int list"
  cells :: "int list \<rightharpoonup> 'n"

text \<open>\<^verbatim>\<open>range(bound)\<close>.\<close>

definition py_range :: "int \<Rightarrow> int list" where
  "py_range bound = [0 .. bound - 1]"

text \<open>\<^verbatim>\<open>np.zeros(bounds, dtype)\<close>; a negative dimension raises.\<close>

definition np_zeros :: "int list \<Rightarrow> np_dtype \<Rightarrow> error + ('n::zero) narray" where
  "np_zeros bs t =
     (if \<exists>b \<in> set bs. b < 0 then Inl (ValueError ''negative dimensions are not allowed'')
      else Inr \<lparr>dtype = t, shape_of = bs,
                cells = (\<lambda>idx. if idx \<in> set (product_lists (map py_range bs))
                                then Some 0 else None)\<rparr>)"

text \<open>The inner \<^verbatim>\<open>for func, arg_n in zip(deref_func, arg_no)\<close> of \<^verbatim>\<open>to_array\<close>.\<close>

fun replay ::
  "('v, 'n) gdb \<Rightarrow> (ref_type \<times> nat) list \<Rightarrow> nat \<Rightarrow> 'v \<Rightarrow> int list \<Rightarrow> error + 'v" where
  "replay g [] start_ind v idx = Inr v"
| "replay g ((func, arg_n) # fs) start_ind v idx =
     (let end_ind = start_ind + arg_n in
      case method_deref g func v (take (end_ind - start_ind) (drop start_ind idx)) of
        Inl e \<Rightarrow> Inl e
      | Inr v' \<Rightarrow> replay g fs end_ind v' idx)"

text \<open>The \<^verbatim>\<open>for index in indices\<close> loop.\<close>

fun fill ::
  "('v, 'n) gdb \<Rightarrow> string \<Rightarrow> (ref_type \<times> nat) list \<Rightarrow> np_dtype \<Rightarrow> int list list \<Rightarrow>
     'n narray \<Rightarrow> error + 'n narray" where
  "fill g var steps t [] narr = Inr narr"
| "fill g var steps t (idx # rest) narr =
     (case parse_and_eval g var of
        Inl e \<Rightarrow> Inl e
      | Inr v0 \<Rightarrow>
          (case replay g steps 0 v0 idx of
             Inl e \<Rightarrow> Inl e
           | Inr v \<Rightarrow> fill g var steps t rest (narr\<lparr>cells := (cells narr)(idx \<mapsto> cast g t v)\<rparr>)))"

text \<open>\<^verbatim>\<open>to_array(var, shape)\<close>: the array it returns and the lines printed on the
  way, or the exception; \<open>None\<close> when the type walk does not end.\<close>

definition to_array ::
  "('v, 'n::zero) gdb \<Rightarrow> string \<Rightarrow> int list option \<Rightarrow> (error + 'n narray \<times> string list) option" where
  "to_array g var shape =
     (case parse_and_eval g var of
        Inl e \<Rightarrow> Some (Inl e)
      | Inr v \<Rightarrow>
          (case get_deref_funcs g v shape of
             None \<Rightarrow> None
           | Some (Inl e) \<Rightarrow> Some (Inl e)
           | Some (Inr ((deref_func, arg_no, bs, dt), out)) \<Rightarrow>
               (let ranges = map py_range bs;
                    indices = product_lists ranges
                in case type_list dt of
                     None \<Rightarrow> Some (Inl (KeyError dt))
                   | Some t \<Rightarrow>
                       (case np_zeros bs t of
                          Inl e \<Rightarrow> Some (Inl e)
                        | Inr narr \<Rightarrow>
                            (case fill g var (zip deref_func arg_no) t indices narr of
                               Inl e \<Rightarrow> Some (Inl e)
                             | Inr narr' \<Rightarrow> Some (Inr (narr', out)))))))"

section \<open>Vocabulary of the statements\<close>

text \<open>A dimension as the debugger prints it: a non-empty run of decimal digits.\<close>

definition digits :: "string \<Rightarrow> bool" where
  "digits ds \<longleftrightarrow> ds \<noteq> [] \<and> (\<forall>c \<in> set ds. is_digit c)"

text \<open>The bracketed dimension groups of an array type name, \<^verbatim>\<open>[d1][d2]...\<close>.\<close>

definition groups_of :: "string list \<Rightarrow> string" where
  "groups_of dss = concat (map (\<lambda>ds. CHR ''['' # ds @ [CHR '']'']) dss)"

text \<open>The state \<^verbatim>\<open>_get_deref_funcs\<close> enters its outer loop with.\<close>

definition init_locals :: "('v, 'n) gdb \<Rightarrow> 'v \<Rightarrow> int list option \<Rightarrow> 'v locals" where
  "init_locals g v shape =
     \<lparr>l_val = v, l_arr_type = get_type g v, l_old_type = None,
      l_shape_ind = (if shape_truthy shape then Some 0 else None),
      l_deref_func = [], l_bounds = [], l_arg_no = []\<rparr>"

text \<open>One pass through the body of the outer loop: the inner loop's body (it runs
  once, lemma \<open>inner_loop_once\<close>), the container test, the new \<^verbatim>\<open>arr_type\<close>.\<close>

definition outer_body ::
  "('v, 'n) gdb \<Rightarrow> int list option \<Rightarrow> 'v locals \<Rightarrow> error + 'v locals" where
  "outer_body g shape st =
     (case deref g ptr_list shape
             (st\<lparr>l_arr_type := get_type g (l_val st),
                 l_old_type := Some (get_type g (l_val st))\<rparr>) of
        Inl e \<Rightarrow> Inl e
      | Inr st1 \<Rightarrow>
          (case deref g container_list shape st1 of
             Inl e \<Rightarrow> Inl e
           | Inr st2 \<Rightarrow> Inr (st2\<lparr>l_arr_type := get_type g (l_val st2)\<rparr>)))"

text \<open>The states the type walk passes through at the head of the outer loop.\<close>

inductive walk_reaches ::
  "('v, 'n) gdb \<Rightarrow> int list option \<Rightarrow> 'v locals \<Rightarrow> 'v locals \<Rightarrow> bool"
  for g shape st0 where
  start: "walk_reaches g shape st0 st0"
| step: "walk_reaches g shape st0 st \<Longrightarrow> Some (l_arr_type st) \<noteq> l_old_type st \<Longrightarrow>
         outer_body g shape st = Inr st' \<Longrightarrow> walk_reaches g shape st0 st'"

text \<open>C typing, as the debugger has it: the type of \<^verbatim>\<open>val[i]\<close> and of
  \<^verbatim>\<open>val['name']\<close> depends on the type of \<^verbatim>\<open>val\<close> only.\<close>

definition static_typed :: "('v, 'n) gdb \<Rightarrow> bool" where
  "static_typed g \<longleftrightarrow>
     (\<forall>v w i j. type_name g v = type_name g w \<longrightarrow>
        type_name g (index g v i) = type_name g (index g w j)) \<and>
     (\<forall>v w f. type_name g v = type_name g w \<longrightarrow>
        type_name g (field g v f) = type_name g (field g w f))"

text \<open>The invariant of the walk, for the variable's value \<open>root\<close>: one arity per
  step, the arities add up to the number of bounds, and (under C typing) replaying
  the steps found so far from \<open>root\<close>, on any index tuple long enough, ends in a
  value of the type of the current value.\<close>

definition walk_inv :: "('v, 'n) gdb \<Rightarrow> 'v \<Rightarrow> 'v locals \<Rightarrow> bool" where
  "walk_inv g root st \<longleftrightarrow>
     length (l_deref_func st) = length (l_arg_no st) \<and>
     sum_list (l_arg_no st) = length (l_bounds st) \<and>
     (static_typed g \<longrightarrow>
        (\<forall>idx. length (l_bounds st) \<le> length idx \<longrightarrow>
           (\<exists>v. replay g (zip (l_deref_func st) (l_arg_no st)) 0 root idx = Inr v \<and>
                type_name g v = type_name g (l_val st))))"

text \<open>What a call of \<^verbatim>\<open>to_array\<close> shows from outside: the lines it printed, the
  shape of the array it returned, the exception it raised.\<close>

definition printed :: "(error + 'a \<times> string list) option \<Rightarrow> string list option" where
  "printed r = (case r of Some (Inr (a, out)) \<Rightarrow> Some out | _ \<Rightarrow> None)"

definition returned_shape :: "(error + 'n narray \<times> string list) option \<Rightarrow> int list option" where
  "returned_shape r = (case r of Some (Inr (a, out)) \<Rightarrow> Some (shape_of a) | _ \<Rightarrow> None)"

definition raised :: "(error + 'a) option \<Rightarrow> error option" where
  "raised r = (case r of Some (Inl e) \<Rightarrow> Some e | _ \<Rightarrow> None)"

section \<open>A small debugger session to run the code on\<close>

text \<open>
  A value is its type name and the accesses that led to it from its variable.
  The type of a child depends on the type of its parent only, as in C.  The
  vector \<^verbatim>\<open>v\<close> holds \<open>len\<close> elements.  A cell's number is read off the indices of
  its path, so that every cell of the examples is different.
\<close>

datatype access = Idx int | Fld string

type_synonym dval = "string \<times> access list"

definition demo_vars :: "string \<rightharpoonup> string" where
  "demo_vars =
     [''mat'' \<mapsto> ''float [2][3]'', ''p'' \<mapsto> ''int *'', ''pp'' \<mapsto> ''int **'',
      ''ap'' \<mapsto> ''int *[2]'', ''v'' \<mapsto> ''std::vector<int, std::allocator<int> >'',
      ''u'' \<mapsto> ''int []'', ''big'' \<mapsto> ''long'', ''lp'' \<mapsto> ''long *'', ''x'' \<mapsto> ''double'']"

definition elem_type :: "string \<rightharpoonup> string" where
  "elem_type =
     [''float [2][3]'' \<mapsto> ''float [3]'', ''float [3]'' \<mapsto> ''float'', ''int *'' \<mapsto> ''int'',
      ''int **'' \<mapsto> ''int *'', ''int *[2]'' \<mapsto> ''int *'', ''int []'' \<mapsto> ''int'',
      ''long *'' \<mapsto> ''long'']"

definition member_type :: "string \<times> string \<rightharpoonup> string" where
  "member_type =
     [(''std::vector<int, std::allocator<int> >'', ''_M_impl'') \<mapsto>
        ''std::_Vector_base<int, std::allocator<int> >::_Vector_impl'',
      (''std::_Vector_base<int, std::allocator<int> >::_Vector_impl'', ''_M_start'') \<mapsto> ''int *'',
      (''std::_Vector_base<int, std::allocator<int> >::_Vector_impl'', ''_M_finish'') \<mapsto> ''int *'']"

definition demo_index :: "dval \<Rightarrow> int \<Rightarrow> dval" where
  "demo_index v i =
     ((case elem_type (fst v) of None \<Rightarrow> fst v | Some t \<Rightarrow> t), snd v @ [Idx i])"

definition demo_field :: "dval \<Rightarrow> string \<Rightarrow> dval" where
  "demo_field v f =
     ((case member_type (fst v, f) of None \<Rightarrow> fst v | Some t \<Rightarrow> t), snd v @ [Fld f])"

definition demo_cast :: "np_dtype \<Rightarrow> dval \<Rightarrow> int" where
  "demo_cast t v = foldl (\<lambda>a s. 10 * a + (case s of Idx i \<Rightarrow> i | Fld f \<Rightarrow> 0)) 0 (snd v)"

definition demo_gdb :: "int \<Rightarrow> (dval, int) gdb" where
  "demo_gdb len =
     \<lparr>parse_and_eval =
        (\<lambda>var. case demo_vars var of
                  None \<Rightarrow> Inl (GdbError ''No symbol in current context.'')
                | Some t \<Rightarrow> Inr (t, [])),
      type_name = fst,
      type_name_uq = fst,
      index = demo_index,
      field = demo_field,
      ptr_diff = (\<lambda>a b. len),
      cast = demo_cast\<rparr>"

section \<open>Terminal types, C typing, and debuggers that record their accesses\<close>

text \<open>A type name is terminal when none of the three layer patterns matches it:
  the walk has nothing left to peel.\<close>

definition terminal :: "string \<Rightarrow> bool" where
  "terminal s \<longleftrightarrow> \<not> ptr_search s \<and> arr_search s = None \<and> \<not> vec_search s"

text \<open>C typing with its nesting made explicit: besides \<open>static_typed\<close>, every
  access a layer makes leads to a type of smaller rank (for C, the nesting depth
  of the type): the target of a pointer or the element of an array below the
  pointer or array, the element of a vector below the vector.\<close>

definition c_typed :: "('v, 'n) gdb \<Rightarrow> (string \<Rightarrow> nat) \<Rightarrow> bool" where
  "c_typed g rank \<longleftrightarrow>
     static_typed g \<and>
     (\<forall>v i. ptr_search (type_name g v) \<or> arr_search (type_name g v) \<noteq> None \<longrightarrow>
        rank (type_name g (index g v i)) < rank (type_name g v)) \<and>
     (\<forall>v i. vec_search (type_name g v) \<longrightarrow>
        rank (type_name g (index g (field g (field g v ''_M_impl'') ''_M_start'') i))
          < rank (type_name g v))"

text \<open>The demo session with an index access that leaves the tables: the child of
  a type without an entry has the empty type name.  Every access then shortens
  the type name.\<close>

definition strict_index :: "dval \<Rightarrow> int \<Rightarrow> dval" where
  "strict_index v i =
     ((case elem_type (fst v) of None \<Rightarrow> [] | Some t \<Rightarrow> t), snd v @ [Idx i])"

definition strict_gdb :: "(dval, int) gdb" where
  "strict_gdb = (demo_gdb 0)\<lparr>index := strict_index\<rparr>"

text \<open>Any debugger, with every value carrying the accesses that were made to
  obtain it from its variable, in order.\<close>

definition traced :: "('v, 'n) gdb \<Rightarrow> ('v \<times> access list, 'n) gdb" where
  "traced g =
     \<lparr>parse_and_eval =
        (\<lambda>var. case parse_and_eval g var of Inl e \<Rightarrow> Inl e | Inr v \<Rightarrow> Inr (v, [])),
      type_name = (\<lambda>a. type_name g (fst a)),
      type_name_uq = (\<lambda>a. type_name_uq g (fst a)),
      index = (\<lambda>a i. (index g (fst a) i, snd a @ [Idx i])),
      field = (\<lambda>a f. (field g (fst a) f, snd a @ [Fld f])),
      ptr_diff = (\<lambda>a b. ptr_diff g (fst a) (fst b)),
      cast = (\<lambda>t a. cast g t (fst a))\<rparr>"

section \<open>The loops run their bodies as written\<close>

lemma deref_keeps:
  "deref g rs shape st = Inr st' \<Longrightarrow>
     l_arr_type st' = l_arr_type st \<and> l_old_type st' = l_old_type st"
  by (induction rs arbitrary: st) (auto split: if_splits sum.splits)

lemma inner_loop_once:
  assumes "Some (l_arr_type st) \<noteq> l_old_type st"
  shows "inner_loop g shape st =
     (case deref g ptr_list shape
             (st\<lparr>l_arr_type := get_type g (l_val st), l_old_type := Some (get_type g (l_val st))\<rparr>) of
        Inl e \<Rightarrow> Some (Inl e)
      | Inr st2 \<Rightarrow> Some (Inr st2))"
proof (cases "deref g ptr_list shape
             (st\<lparr>l_arr_type := get_type g (l_val st), l_old_type := Some (get_type g (l_val st))\<rparr>)")
  case (Inl e)
  then show ?thesis using assms by (subst inner_loop.simps) (simp add: Let_def)
next
  case (Inr st2)
  from deref_keeps [OF Inr] have k: "Some (l_arr_type st2) = l_old_type st2" by simp
  have "inner_loop g shape st2 = Some (Inr st2)"
    using k by (subst inner_loop.simps) simp
  then show ?thesis using assms Inr by (subst inner_loop.simps) (simp add: Let_def)
qed

lemma outer_loop_unfold:
  "outer_loop g shape st =
     (if Some (l_arr_type st) \<noteq> l_old_type st then
        (case deref g ptr_list shape
                (st\<lparr>l_arr_type := get_type g (l_val st), l_old_type := Some (get_type g (l_val st))\<rparr>) of
           Inl e \<Rightarrow> Some (Inl e)
         | Inr st1 \<Rightarrow>
             (case deref g container_list shape st1 of
                Inl e \<Rightarrow> Some (Inl e)
              | Inr st2 \<Rightarrow> outer_loop g shape (st2\<lparr>l_arr_type := get_type g (l_val st2)\<rparr>)))
      else Some (Inr st))"
  by (subst outer_loop.simps) (simp add: inner_loop_once split: sum.splits)

section \<open>What the regular expressions match\<close>

lemma py_int_digits: "py_int ds = Inr m \<Longrightarrow> digits ds"
  by (auto simp: py_int_def digits_def split: if_splits)

lemma is_digit_not_bracket:
  "is_digit c \<Longrightarrow> c \<noteq> CHR '']'' \<and> c \<noteq> CHR ''['' \<and> c \<noteq> CHR ''*'' \<and> c \<noteq> CHR 0x0A"
  by (auto simp: is_digit_def)

lemma not_digit_close [simp]: "\<not> is_digit CHR '']''"
  by (simp add: is_digit_def)

lemma not_digit_open [simp]: "\<not> is_digit CHR ''[''"
  by (simp add: is_digit_def)

lemma in_group_digits:
  "\<forall>c \<in> set ds. is_digit c \<Longrightarrow> in_group (ds @ CHR '']'' # rest) = after_group rest"
  by (induction ds) simp_all

lemma groups_of_Cons:
  "groups_of (ds # dss) = CHR ''['' # ds @ CHR '']'' # groups_of dss"
  by (simp add: groups_of_def)

lemma groups_of_Nil: "groups_of [] = []"
  by (simp add: groups_of_def)

lemma after_group_groups:
  "\<forall>ds \<in> set dss. digits ds \<Longrightarrow> after_group (groups_of dss)"
  by (induction dss) (simp_all add: groups_of_Cons groups_of_Nil in_group_digits digits_def)

lemma groups_to_end_groups:
  "\<forall>ds \<in> set dss. digits ds \<Longrightarrow> dss \<noteq> [] \<Longrightarrow> groups_to_end (groups_of dss)"
  by (cases dss) (simp_all add: groups_to_end_def groups_of_Cons in_group_digits digits_def after_group_groups)

lemma in_group_no_close:
  "CHR '']'' \<notin> set q \<Longrightarrow> \<not> in_group (q @ CHR ''['' # rest)"
  by (induction q) auto

lemma groups_to_end_prefix:
  "CHR '']'' \<notin> set p \<Longrightarrow> p \<noteq> [] \<Longrightarrow> \<not> groups_to_end (p @ CHR ''['' # rest)"
  by (cases p) (simp_all add: groups_to_end_def in_group_no_close)

lemma arr_search_prefix:
  "CHR '']'' \<notin> set p \<Longrightarrow> groups_to_end (CHR ''['' # rest) \<Longrightarrow>
     arr_search (p @ CHR ''['' # rest) = Some (match_text (CHR ''['' # rest))"
proof (induction p)
  case Nil
  then show ?case by simp
next
  case (Cons c p)
  have "\<not> groups_to_end ((c # p) @ CHR ''['' # rest)"
    using Cons.prems(1) by (intro groups_to_end_prefix) auto
  then show ?case using Cons by simp
qed

lemma last_groups_of:
  "dss \<noteq> [] \<Longrightarrow> last (groups_of dss) = CHR '']''"
proof (induction dss)
  case Nil then show ?case by simp
next
  case (Cons ds dss)
  show ?case
  proof (cases "dss = []")
    case True then show ?thesis by (simp add: groups_of_Cons groups_of_Nil)
  next
    case False
    then have "groups_of dss \<noteq> []" by (cases dss) (simp_all add: groups_of_Cons)
    then show ?thesis using Cons False by (simp add: groups_of_Cons)
  qed
qed

lemma groups_of_nonempty: "dss \<noteq> [] \<Longrightarrow> groups_of dss \<noteq> []"
  by (cases dss) (simp_all add: groups_of_Cons)

lemma match_text_groups: "match_text (groups_of dss) = groups_of dss"
  by (cases "dss = []") (simp_all add: match_text_def last_groups_of groups_of_Nil)

lemma arr_search_groups:
  assumes "CHR '']'' \<notin> set p" "\<forall>ds \<in> set dss. digits ds" "dss \<noteq> []"
  shows "arr_search (p @ groups_of dss) = Some (groups_of dss)"
proof -
  obtain ds rest where d: "dss = ds # rest" using assms(3) by (cases dss) auto
  have g: "groups_to_end (groups_of dss)" using assms by (simp add: groups_to_end_groups)
  have "arr_search (p @ CHR ''['' # ds @ CHR '']'' # groups_of rest) =
          Some (match_text (CHR ''['' # ds @ CHR '']'' # groups_of rest))"
    using assms(1) g unfolding d groups_of_Cons by (rule arr_search_prefix)
  then show ?thesis using match_text_groups [of dss] by (simp add: d groups_of_Cons)
qed

lemma has_empty_dim_Cons:
  "has_empty_dim (c # s) = ((c = CHR ''['' \<and> s \<noteq> [] \<and> hd s = CHR '']'') \<or> has_empty_dim s)"
  by (cases s) auto

lemma has_empty_dim_append_digits:
  "\<forall>c \<in> set ds. is_digit c \<Longrightarrow> ds \<noteq> [] \<Longrightarrow>
     has_empty_dim (ds @ CHR '']'' # rest) = has_empty_dim rest"
proof (induction ds)
  case Nil then show ?case by simp
next
  case (Cons c ds)
  show ?case
  proof (cases "ds = []")
    case True
    then show ?thesis using Cons.prems is_digit_not_bracket [of c] by (cases rest) auto
  next
    case False
    then have "hd (ds @ CHR '']'' # rest) \<noteq> CHR '']''"
      using Cons.prems is_digit_not_bracket [of "hd ds"] by (cases ds) auto
    then show ?thesis using Cons False by (simp add: has_empty_dim_Cons [of c])
  qed
qed

lemma has_empty_dim_groups:
  "\<forall>ds \<in> set dss. digits ds \<Longrightarrow> \<not> has_empty_dim (groups_of dss)"
proof (induction dss)
  case Nil then show ?case by (simp add: groups_of_Nil)
next
  case (Cons ds dss)
  then have d: "ds \<noteq> []" "\<forall>c \<in> set ds. is_digit c" by (auto simp: digits_def)
  have "hd ds \<noteq> CHR '']''" using d is_digit_not_bracket [of "hd ds"] by (cases ds) auto
  then have "hd (ds @ CHR '']'' # groups_of dss) \<noteq> CHR '']''" using d by (cases ds) auto
  then show ?case using Cons d
    by (simp add: groups_of_Cons has_empty_dim_Cons [of "CHR ''[''"] has_empty_dim_append_digits)
qed

lemma has_empty_dim_prefix:
  "CHR '']'' \<notin> set p \<Longrightarrow>
     has_empty_dim (p @ CHR ''['' # rest) = has_empty_dim (CHR ''['' # rest)"
proof (induction p)
  case Nil then show ?case by simp
next
  case (Cons c p)
  have "hd (p @ CHR ''['' # rest) \<noteq> CHR '']''"
    using Cons.prems by (cases p) auto
  then show ?case using Cons
    by (simp add: has_empty_dim_Cons [of c])
qed

lemma split_brackets_nonempty: "split_brackets s \<noteq> []"
  by (induction s rule: split_brackets.induct) (auto split: list.splits)

lemma hd_split_brackets_Cons:
  "c \<noteq> CHR '']'' \<Longrightarrow> hd (split_brackets (c # s)) = c # hd (split_brackets s)"
  using split_brackets_nonempty [of s] by (cases s) (auto split: list.splits)

lemma hd_split_brackets_plain:
  "CHR '']'' \<notin> set ds \<Longrightarrow> hd (split_brackets ds) = ds"
proof (induction ds)
  case Nil then show ?case by simp
next
  case (Cons c ds)
  then have "c \<noteq> CHR '']''" by auto
  from hd_split_brackets_Cons [OF this, of ds] Cons show ?case by simp
qed

lemma hd_split_brackets_sep:
  "CHR '']'' \<notin> set ds \<Longrightarrow> hd (split_brackets (ds @ CHR '']'' # CHR ''['' # rest)) = ds"
proof (induction ds)
  case Nil then show ?case by simp
next
  case (Cons c ds)
  then have "c \<noteq> CHR '']''" by auto
  from hd_split_brackets_Cons [OF this, of "ds @ CHR '']'' # CHR ''['' # rest"] Cons
  show ?case by simp
qed

lemma first_dim_groups:
  assumes "digits d"
  shows "hd (split_brackets (butlast (tl (groups_of (d # dss))))) = d"
proof -
  have nb: "CHR '']'' \<notin> set d" using assms is_digit_not_bracket by (auto simp: digits_def)
  show ?thesis
  proof (cases dss)
    case Nil
    then show ?thesis using nb
      by (simp add: groups_of_Cons groups_of_Nil butlast_append hd_split_brackets_plain)
  next
    case (Cons d2 rest)
    have "butlast (tl (groups_of (d # dss))) =
            d @ CHR '']'' # CHR ''['' # butlast (d2 @ CHR '']'' # groups_of rest)"
      by (simp add: Cons groups_of_Cons butlast_append)
    then show ?thesis using nb by (simp add: hd_split_brackets_sep)
  qed
qed

lemma ptr_search_no_star: "CHR ''*'' \<notin> set s \<Longrightarrow> \<not> ptr_search s"
  by (induction s) auto

lemma ptr_search_prefix: "CHR ''*'' \<notin> set p \<Longrightarrow> ptr_search (p @ s) = ptr_search s"
  by (induction p) auto

lemma ptr_search_star_end: "ptr_search (p @ ''*'')"
  by (induction p) (auto simp: at_end_def)

section \<open>The layer constructors on well-formed type names\<close>

lemma type_list_cases:
  "type_list T \<noteq> None \<Longrightarrow>
     T = ''unsigned char'' \<or> T = ''unsigned int'' \<or> T = ''char'' \<or> T = ''short'' \<or>
     T = ''int'' \<or> T = ''float'' \<or> T = ''double''"
  by (simp add: type_list_def split: if_splits)

lemma scalar_no_close: "type_list T \<noteq> None \<Longrightarrow> CHR '']'' \<notin> set (T @ '' '')"
  by (drule type_list_cases) (elim disjE; simp)

lemma scalar_no_star: "type_list T \<noteq> None \<Longrightarrow> CHR ''*'' \<notin> set (T @ '' '')"
  by (drule type_list_cases) (elim disjE; simp)

lemma scalar_no_ptr: "type_list T \<noteq> None \<Longrightarrow> \<not> ptr_search T"
  by (drule type_list_cases) (elim disjE; simp add: at_end_def)

lemma scalar_no_arr: "type_list T \<noteq> None \<Longrightarrow> arr_search T = None"
  by (drule type_list_cases) (elim disjE; simp add: groups_to_end_def)

lemma scalar_no_vec: "type_list T \<noteq> None \<Longrightarrow> \<not> vec_search (T @ rest)"
  by (drule type_list_cases) (elim disjE; simp add: vec_search_def)

lemma DeRefArr_init_groups:
  assumes "type_name_uq g v = p @ groups_of (d # dss)"
    and "CHR '']'' \<notin> set p"
    and "py_int d = Inr m"
    and "\<forall>ds \<in> set dss. digits ds"
  shows "DeRefArr_init g v si shape = Inr \<lparr>bounds = [m], val = index g v 0, shape_ind = si\<rparr>"
proof -
  have d: "digits d" using assms(3) by (rule py_int_digits)
  then have all: "\<forall>ds \<in> set (d # dss). digits ds" using assms(4) by simp
  have e: "\<not> has_empty_dim (p @ groups_of (d # dss))"
    using has_empty_dim_prefix [OF assms(2), of "d @ CHR '']'' # groups_of dss"]
      has_empty_dim_groups [OF all]
    by (simp add: groups_of_Cons)
  have s: "arr_search (p @ groups_of (d # dss)) = Some (groups_of (d # dss))"
    using assms(2) all by (intro arr_search_groups) simp_all
  show ?thesis
    using e s first_dim_groups [OF d, of dss] assms(1,3)
    by (simp add: DeRefArr_init_def DeRefArr_update_def DeRefBase_init_def Let_def
        DeRefArr_deref_def first_index_def)
qed

lemma DeRefPtr_init_ok:
  assumes "c < length sh"
  shows "DeRefPtr_init g v (Some c) (Some sh) =
           Inr \<lparr>bounds = [sh ! c], val = index g v 0, shape_ind = Some (Suc c)\<rparr>"
proof -
  have "take (Suc 0) (drop c sh) = [sh ! c]"
    using assms by (simp add: take_Suc_conv_app_nth hd_drop_conv_nth take_Suc)
  then show ?thesis using assms
    by (simp add: DeRefPtr_init_def DeRefPtr_update_def DeRefBase_init_def Let_def
        DeRefPtr_deref_def first_index_def get_range_from_shape_def)
qed

lemma DeRefVec_init_ok:
  "DeRefVec_init g v si shape =
     Inr \<lparr>bounds = [ptr_diff g (field g (field g v ''_M_impl'') ''_M_finish'')
                               (field g (field g v ''_M_impl'') ''_M_start'')],
          val = index g (field g (field g v ''_M_impl'') ''_M_start'') 0,
          shape_ind = si\<rparr>"
  by (simp add: DeRefVec_init_def DeRefVec_update_def DeRefBase_init_def Let_def
      DeRefVec_deref_def first_index_def)

section \<open>One iteration of the type walk\<close>

lemma outer_exit:
  "Some (l_arr_type st) = l_old_type st \<Longrightarrow> outer_loop g shape st = Some (Inr st)"
  by (subst outer_loop_unfold) simp

lemma outer_step_none:
  assumes "Some (l_arr_type st) \<noteq> l_old_type st"
    and "\<not> ptr_search (get_type g (l_val st))"
    and "arr_search (get_type g (l_val st)) = None"
    and "\<not> vec_search (get_type g (l_val st))"
  shows "outer_loop g shape st =
           Some (Inr (st\<lparr>l_arr_type := get_type g (l_val st),
                          l_old_type := Some (get_type g (l_val st))\<rparr>))"
  using assms
  by (subst outer_loop_unfold) (simp add: ptr_list_def container_list_def outer_exit)

lemma outer_step_arr:
  assumes "Some (l_arr_type st) \<noteq> l_old_type st"
    and "\<not> ptr_search (get_type g (l_val st))"
    and "arr_search (get_type g (l_val st)) \<noteq> None"
    and "DeRefArr_init g (l_val st) (l_shape_ind st) shape = Inr obj"
    and "\<not> vec_search (get_type g (val obj))"
  shows "outer_loop g shape st =
           outer_loop g shape
             (st\<lparr>l_old_type := Some (get_type g (l_val st)),
                 l_val := val obj,
                 l_shape_ind := shape_ind obj,
                 l_deref_func := l_deref_func st @ [DeRefArr],
                 l_bounds := l_bounds st @ bounds obj,
                 l_arg_no := l_arg_no st @ [length (bounds obj)],
                 l_arr_type := get_type g (val obj)\<rparr>)"
  using assms
  by (subst outer_loop_unfold) (simp add: ptr_list_def container_list_def)

lemma outer_step_ptr:
  assumes "Some (l_arr_type st) \<noteq> l_old_type st"
    and "ptr_search (get_type g (l_val st))"
    and "DeRefPtr_init g (l_val st) (l_shape_ind st) shape = Inr obj"
    and "arr_search (get_type g (val obj)) = None"
    and "\<not> vec_search (get_type g (val obj))"
  shows "outer_loop g shape st =
           outer_loop g shape
             (st\<lparr>l_old_type := Some (get_type g (l_val st)),
                 l_val := val obj,
                 l_shape_ind := shape_ind obj,
                 l_deref_func := l_deref_func st @ [DeRefPtr],
                 l_bounds := l_bounds st @ bounds obj,
                 l_arg_no := l_arg_no st @ [length (bounds obj)],
                 l_arr_type := get_type g (val obj)\<rparr>)"
  using assms
  by (subst outer_loop_unfold) (simp add: ptr_list_def container_list_def)

lemma outer_step_vec:
  assumes "Some (l_arr_type st) \<noteq> l_old_type st"
    and "\<not> ptr_search (get_type g (l_val st))"
    and "arr_search (get_type g (l_val st)) = None"
    and "vec_search (get_type g (l_val st))"
    and "DeRefVec_init g (l_val st) (l_shape_ind st) shape = Inr obj"
  shows "outer_loop g shape st =
           outer_loop g shape
             (st\<lparr>l_old_type := Some (get_type g (l_val st)),
                 l_val := val obj,
                 l_shape_ind := shape_ind obj,
                 l_deref_func := l_deref_func st @ [DeRefVec],
                 l_bounds := l_bounds st @ bounds obj,
                 l_arg_no := l_arg_no st @ [length (bounds obj)],
                 l_arr_type := get_type g (val obj)\<rparr>)"
  using assms
  by (subst outer_loop_unfold) (simp add: ptr_list_def container_list_def)

lemma groups_types_differ: "T @ '' '' @ groups_of (d # dss) \<noteq> T @ '' '' @ groups_of dss"
proof
  assume "T @ '' '' @ groups_of (d # dss) = T @ '' '' @ groups_of dss"
  then have "length (groups_of (d # dss)) = length (groups_of dss)" by simp
  then show False by (simp add: groups_of_Cons)
qed

lemma walk_arr2:
  assumes tn0: "type_name g root = T @ '' '' @ groups_of [d1, d2]"
    and uq0: "type_name_uq g root = T @ '' '' @ groups_of [d1, d2]"
    and tn1: "type_name g (index g root 0) = T @ '' '' @ groups_of [d2]"
    and uq1: "type_name_uq g (index g root 0) = T @ '' '' @ groups_of [d2]"
    and tn2: "type_name g (index g (index g root 0) 0) = T"
    and T: "type_list T \<noteq> None"
    and m: "py_int d1 = Inr m" and n: "py_int d2 = Inr n"
  shows "get_deref_funcs g root shape =
           Some (Inr (([DeRefArr, DeRefArr], [1, 1], [m, n], T), []))"
proof -
  define si where "si = (if shape_truthy shape then Some (0::nat) else None)"
  define st0 where "st0 = \<lparr>l_val = root, l_arr_type = get_type g root, l_old_type = None,
                 l_shape_ind = si, l_deref_func = [], l_bounds = [], l_arg_no = []\<rparr>"
  define st1 where "st1 = \<lparr>l_val = index g root 0, l_arr_type = T @ '' '' @ groups_of [d2],
                 l_old_type = Some (T @ '' '' @ groups_of [d1, d2]),
                 l_shape_ind = si, l_deref_func = [DeRefArr], l_bounds = [m], l_arg_no = [1]\<rparr>"
  define st2 where "st2 = \<lparr>l_val = index g (index g root 0) 0, l_arr_type = T,
                 l_old_type = Some (T @ '' '' @ groups_of [d2]),
                 l_shape_ind = si, l_deref_func = [DeRefArr, DeRefArr], l_bounds = [m, n],
                 l_arg_no = [1, 1]\<rparr>"
  have dg: "digits d1" "digits d2" using m n by (auto dest: py_int_digits)
  have p: "CHR '']'' \<notin> set (T @ '' '')" "CHR ''*'' \<notin> set (T @ '' '')"
    by (rule scalar_no_close [OF T]) (rule scalar_no_star [OF T])
  have star: "\<And>dss. \<forall>ds \<in> set dss. digits ds \<Longrightarrow> CHR ''*'' \<notin> set (groups_of dss)"
    subgoal for dss
      by (induction dss) (auto simp: groups_of_Cons groups_of_Nil digits_def dest: is_digit_not_bracket)
    done
  have np: "\<And>dss. \<forall>ds \<in> set dss. digits ds \<Longrightarrow> \<not> ptr_search (T @ '' '' @ groups_of dss)"
    using p(2) star by (intro ptr_search_no_star) auto
  have as: "\<And>dss. \<forall>ds \<in> set dss. digits ds \<Longrightarrow> dss \<noteq> [] \<Longrightarrow>
              arr_search (T @ '' '' @ groups_of dss) = Some (groups_of dss)"
    using arr_search_groups [OF p(1)] by simp
  have o1: "DeRefArr_init g root si shape = Inr \<lparr>bounds = [m], val = index g root 0, shape_ind = si\<rparr>"
    using DeRefArr_init_groups [of g root "T @ '' ''" d1 "[d2]" m si shape] uq0 p(1) m dg by simp
  have o2: "DeRefArr_init g (index g root 0) si shape =
              Inr \<lparr>bounds = [n], val = index g (index g root 0) 0, shape_ind = si\<rparr>"
    using DeRefArr_init_groups [of g "index g root 0" "T @ '' ''" d2 "[]" n si shape] uq1 p(1) n
    by simp
  have s1: "outer_loop g shape st0 = outer_loop g shape st1"
    using np [of "[d1, d2]"] as [of "[d1, d2]"] dg o1 scalar_no_vec [OF T]
    by (subst outer_step_arr [where obj = "\<lparr>bounds = [m], val = index g root 0, shape_ind = si\<rparr>"])
       (simp_all add: st0_def st1_def get_type_def tn0 tn1)
  have s2: "outer_loop g shape st1 = outer_loop g shape st2"
    using np [of "[d2]"] as [of "[d2]"] dg o2 scalar_no_vec [OF T, of "[]"]
      groups_types_differ [of T d1 "[d2]"]
    by (subst outer_step_arr
          [where obj = "\<lparr>bounds = [n], val = index g (index g root 0) 0, shape_ind = si\<rparr>"])
       (simp_all add: st1_def st2_def get_type_def tn1 tn2)
  have neq: "T @ '' '' @ groups_of [d2] \<noteq> T" by simp
  have s3: "outer_loop g shape st2 = Some (Inr (st2\<lparr>l_old_type := Some T\<rparr>))"
    using scalar_no_ptr [OF T] scalar_no_arr [OF T] scalar_no_vec [OF T, of "[]"] neq
    by (subst outer_step_none) (simp_all add: st2_def get_type_def tn2)
  have "surplus_notice si shape = Inr []"
    by (cases shape) (simp_all add: si_def surplus_notice_def shape_ind_truthy_def shape_truthy_def)
  then show ?thesis
    using s1 s2 s3
    by (simp add: get_deref_funcs_def Let_def st0_def [symmetric] si_def [symmetric])
       (simp add: st2_def)
qed

section \<open>Filling the array\<close>

lemma fill_all:
  assumes "parse_and_eval g var = Inr root"
    and "\<forall>idx \<in> set idxs. replay g steps 0 root idx = Inr (h idx)"
  shows "fill g var steps t idxs narr =
           Inr (narr\<lparr>cells := (\<lambda>i. if i \<in> set idxs then Some (cast g t (h i)) else cells narr i)\<rparr>)"
  using assms(2)
proof (induction idxs arbitrary: narr)
  case Nil
  then show ?case by simp
next
  case (Cons idx rest)
  let ?n1 = "narr\<lparr>cells := (cells narr)(idx \<mapsto> cast g t (h idx))\<rparr>"
  have "fill g var steps t (idx # rest) narr = fill g var steps t rest ?n1"
    using Cons.prems assms(1) by simp
  also have "\<dots> = Inr (?n1\<lparr>cells := (\<lambda>i. if i \<in> set rest then Some (cast g t (h i))
                                         else cells ?n1 i)\<rparr>)"
    using Cons.prems by (intro Cons.IH) simp
  also have "?n1\<lparr>cells := (\<lambda>i. if i \<in> set rest then Some (cast g t (h i)) else cells ?n1 i)\<rparr>
      = narr\<lparr>cells := (\<lambda>i. if i \<in> set (idx # rest) then Some (cast g t (h i))
                              else cells narr i)\<rparr>"
    by (auto simp: fun_eq_iff)
  finally show ?case .
qed

lemma in_py_range: "i \<in> set (py_range b) \<longleftrightarrow> 0 \<le> i \<and> i < b"
  by (auto simp: py_range_def)

lemma digit_val_nonneg: "is_digit c \<Longrightarrow> 0 \<le> digit_val c"
  by (auto simp: is_digit_def digit_val_def)

lemma foldl_digits_nonneg:
  "\<forall>c \<in> set s. is_digit c \<Longrightarrow> 0 \<le> a \<Longrightarrow> 0 \<le> foldl (\<lambda>a c. 10 * a + digit_val c) a s"
proof (induction s arbitrary: a)
  case Nil then show ?case by simp
next
  case (Cons c s)
  then have "0 \<le> 10 * a + digit_val c" using digit_val_nonneg [of c] by simp
  then show ?case using Cons by simp
qed

lemma py_int_nonneg: "py_int ds = Inr m \<Longrightarrow> 0 \<le> m"
  using foldl_digits_nonneg [of ds 0] by (auto simp: py_int_def split: if_splits)

lemma replay_arr2:
  "replay g [(DeRefArr, 1), (DeRefArr, 1)] 0 root [i, j] = Inr (index g (index g root i) j)"
  by (simp add: DeRefArr_deref_def first_index_def)

lemma in_product2:
  "idx \<in> set (product_lists [xs, ys]) \<Longrightarrow> \<exists>i j. idx = [i, j]"
  by auto

lemma in_product2_iff:
  "[i, j] \<in> set (product_lists [xs, ys]) \<longleftrightarrow> i \<in> set xs \<and> j \<in> set ys"
  by auto

section \<open>Claims about arrays\<close>

text \<open>
  C1.  A variable whose type is a two-level fixed-size array of a whitelisted
  scalar, printed \<^verbatim>\<open>T [d1][d2]\<close> with \<open>d1\<close>, \<open>d2\<close> denoting \<open>m\<close> and \<open>n\<close>:
  \<^verbatim>\<open>to_array\<close> returns an array of shape \<open>(m, n)\<close> whose cell \<open>(i, j)\<close> is the
  cast of \<^verbatim>\<open>var[i][j]\<close> for all \<open>0 \<le> i < m\<close>, \<open>0 \<le> j < n\<close>, and the result is
  the same with any shape hint as with none.
\<close>

theorem C1_two_level_array:
  assumes root: "parse_and_eval g var = Inr root"
    and tn0: "type_name g root = T @ '' ['' @ d1 @ '']['' @ d2 @ '']''"
    and uq0: "type_name_uq g root = T @ '' ['' @ d1 @ '']['' @ d2 @ '']''"
    and tn1: "type_name g (index g root 0) = T @ '' ['' @ d2 @ '']''"
    and uq1: "type_name_uq g (index g root 0) = T @ '' ['' @ d2 @ '']''"
    and tn2: "type_name g (index g (index g root 0) 0) = T"
    and T: "type_list T = Some t"
    and m: "py_int d1 = Inr m" and n: "py_int d2 = Inr n"
  shows "\<exists>arr. to_array g var shape = Some (Inr (arr, [])) \<and>
           dtype arr = t \<and> shape_of arr = [m, n] \<and>
           (\<forall>i j. 0 \<le> i \<and> i < m \<and> 0 \<le> j \<and> j < n \<longrightarrow>
              cells arr [i, j] = Some (cast g t (index g (index g root i) j))) \<and>
           to_array g var shape = to_array g var None"
proof -
  have T': "type_list T \<noteq> None" using T by simp
  have w: "\<And>sh. get_deref_funcs g root sh =
           Some (Inr (([DeRefArr, DeRefArr], [1, 1], [m, n], T), []))"
    using walk_arr2 [of g root T d1 d2 m n] tn0 uq0 tn1 uq1 tn2 T' m n
    by (simp add: groups_of_def)
  have nn: "0 \<le> m" "0 \<le> n" using m n by (auto dest: py_int_nonneg)
  define h where "h = (\<lambda>idx :: int list. index g (index g root (idx ! 0)) (idx ! 1))"
  have r: "\<forall>idx \<in> set (product_lists [py_range m, py_range n]).
             replay g [(DeRefArr, 1), (DeRefArr, 1)] 0 root idx = Inr (h idx)"
  proof
    fix idx assume "idx \<in> set (product_lists [py_range m, py_range n])"
    then obtain i j where "idx = [i, j]" by (auto dest: in_product2)
    then show "replay g [(DeRefArr, 1), (DeRefArr, 1)] 0 root idx = Inr (h idx)"
      using replay_arr2 [of g root i j] by (simp add: h_def)
  qed
  define z :: "'b narray" where "z = \<lparr>dtype = t, shape_of = [m, n],
                cells = (\<lambda>idx. if idx \<in> set (product_lists (map py_range [m, n]))
                                then Some 0 else None)\<rparr>"
  have zs: "np_zeros [m, n] t = Inr z" using nn by (simp add: np_zeros_def z_def)
  define arr where "arr = z\<lparr>cells := (\<lambda>i. if i \<in> set (product_lists [py_range m, py_range n])
                                  then Some (cast g t (h i)) else cells z i)\<rparr>"
  have f: "fill g var [(DeRefArr, 1), (DeRefArr, 1)] t (product_lists [py_range m, py_range n]) z
             = Inr arr"
    unfolding arr_def using root r by (rule fill_all)
  have ta: "\<And>sh. to_array g var sh = Some (Inr (arr, []))"
    using root w T zs f by (simp add: to_array_def Let_def)
  have c: "\<forall>i j. 0 \<le> i \<and> i < m \<and> 0 \<le> j \<and> j < n \<longrightarrow>
              cells arr [i, j] = Some (cast g t (index g (index g root i) j))"
    by (simp add: arr_def h_def in_product2_iff in_py_range del: product_lists.simps)
  have "dtype arr = t" "shape_of arr = [m, n]" by (simp_all add: arr_def z_def)
  then show ?thesis using ta c by simp
qed


theorem C1_two_level_array_witness:
  "parse_and_eval (demo_gdb 0) ''mat'' = Inr (''float [2][3]'', []) \<and>
   type_list ''float'' = Some float32 \<and>
   py_int ''2'' = Inr 2 \<and> py_int ''3'' = Inr 3 \<and>
   (\<exists>arr. to_array (demo_gdb 0) ''mat'' (Some [7]) = Some (Inr (arr, [])) \<and>
      dtype arr = float32 \<and> shape_of arr = [2, 3] \<and> cells arr [1, 2] = Some 12 \<and>
      to_array (demo_gdb 0) ''mat'' (Some [7]) = to_array (demo_gdb 0) ''mat'' None)"
proof -
  let ?g = "demo_gdb 0"
  let ?root = "(''float [2][3]'', []) :: dval"
  have h1: "parse_and_eval ?g ''mat'' = Inr ?root"
    by (simp add: demo_gdb_def demo_vars_def)
  have h2: "type_name ?g ?root = ''float'' @ '' ['' @ ''2'' @ '']['' @ ''3'' @ '']''"
    "type_name_uq ?g ?root = ''float'' @ '' ['' @ ''2'' @ '']['' @ ''3'' @ '']''"
    by (simp_all add: demo_gdb_def)
  have h3: "type_name ?g (index ?g ?root 0) = ''float'' @ '' ['' @ ''3'' @ '']''"
    "type_name_uq ?g (index ?g ?root 0) = ''float'' @ '' ['' @ ''3'' @ '']''"
    by (simp_all add: demo_gdb_def demo_index_def elem_type_def)
  have h4: "type_name ?g (index ?g (index ?g ?root 0) 0) = ''float''"
    by (simp add: demo_gdb_def demo_index_def elem_type_def)
  have h5: "type_list ''float'' = Some float32" by (simp add: type_list_def)
  have h6: "py_int ''2'' = Inr 2" "py_int ''3'' = Inr 3"
    by (simp_all add: py_int_def is_digit_def digit_val_def)
  have c: "cast ?g float32 (index ?g (index ?g ?root 1) 2) = 12"
    by (simp add: demo_gdb_def demo_index_def demo_cast_def)
  from C1_two_level_array [OF h1 h2 h3 h4 h5 h6, of "Some [7]"] c
  show ?thesis using h1 h5 h6 by auto
qed

section \<open>Claims about pointers\<close>

lemma scalar_not_ptr_type: "type_list T \<noteq> None \<Longrightarrow> T @ '' *'' \<noteq> T"
  by simp

lemma ptr_search_scalar_ptr: "ptr_search (T @ '' *'')"
  using ptr_search_star_end [of "T @ '' ''"] by simp

lemma walk_ptr1:
  assumes tn0: "type_name g root = T @ '' *''"
    and tn1: "type_name g (index g root 0) = T"
    and T: "type_list T \<noteq> None"
  shows "get_deref_funcs g root (Some [k]) = Some (Inr (([DeRefPtr], [1], [k], T), []))"
proof -
  define st0 where "st0 = \<lparr>l_val = root, l_arr_type = get_type g root, l_old_type = None,
                 l_shape_ind = Some (0::nat), l_deref_func = [], l_bounds = [], l_arg_no = []\<rparr>"
  define st1 where "st1 = \<lparr>l_val = index g root 0, l_arr_type = T,
                 l_old_type = Some (T @ '' *''),
                 l_shape_ind = Some (Suc 0), l_deref_func = [DeRefPtr], l_bounds = [k],
                 l_arg_no = [1]\<rparr>"
  have o1: "DeRefPtr_init g root (Some 0) (Some [k]) =
              Inr \<lparr>bounds = [k], val = index g root 0, shape_ind = Some (Suc 0)\<rparr>"
    using DeRefPtr_init_ok [of 0 "[k]" g root] by simp
  have s1: "outer_loop g (Some [k]) st0 = outer_loop g (Some [k]) st1"
    using ptr_search_scalar_ptr [of T] o1 scalar_no_arr [OF T] scalar_no_vec [OF T, of "[]"]
    by (subst outer_step_ptr
          [where obj = "\<lparr>bounds = [k], val = index g root 0, shape_ind = Some (Suc 0)\<rparr>"])
       (simp_all add: st0_def st1_def get_type_def tn0 tn1)
  have s2: "outer_loop g (Some [k]) st1 = Some (Inr (st1\<lparr>l_old_type := Some T\<rparr>))"
    using scalar_no_ptr [OF T] scalar_no_arr [OF T] scalar_no_vec [OF T, of "[]"]
    by (subst outer_step_none) (simp_all add: st1_def get_type_def tn1)
  show ?thesis
    using s1 s2
    by (simp add: get_deref_funcs_def Let_def st0_def [symmetric] shape_truthy_def)
       (simp add: st1_def surplus_notice_def shape_ind_truthy_def)
qed

lemma replay_ptr1:
  "replay g [(DeRefPtr, 1)] 0 root [i] = Inr (index g root i)"
  by (simp add: DeRefPtr_deref_def first_index_def)

lemma in_product1: "idx \<in> set (product_lists [xs]) \<Longrightarrow> \<exists>i. idx = [i]"
  by auto

lemma in_product1_iff: "[i] \<in> set (product_lists [xs]) \<longleftrightarrow> i \<in> set xs"
  by auto

lemma to_array_one_dim:
  assumes root: "parse_and_eval g var = Inr root"
    and w: "get_deref_funcs g root shape = Some (Inr (([r], [1], [k], T), out))"
    and r: "\<And>i. method_deref g r root [i] = Inr (e i)"
    and T: "type_list T = Some t"
    and k: "0 \<le> k"
  shows "\<exists>arr. to_array g var shape = Some (Inr (arr, out)) \<and>
           dtype arr = t \<and> shape_of arr = [k] \<and>
           (\<forall>i. 0 \<le> i \<and> i < k \<longrightarrow> cells arr [i] = Some (cast g t (e i))) \<and>
           (\<forall>idx. idx \<notin> set (product_lists [py_range k]) \<longrightarrow> cells arr idx = None)"
proof -
  define h where "h = (\<lambda>idx :: int list. e (idx ! 0))"
  have rp: "\<forall>idx \<in> set (product_lists [py_range k]). replay g [(r, 1)] 0 root idx = Inr (h idx)"
  proof
    fix idx assume "idx \<in> set (product_lists [py_range k])"
    then obtain i where "idx = [i]" by (auto dest: in_product1)
    then show "replay g [(r, 1)] 0 root idx = Inr (h idx)"
      using r [of i] by (simp add: h_def)
  qed
  define z :: "'b narray" where "z = \<lparr>dtype = t, shape_of = [k],
                cells = (\<lambda>idx. if idx \<in> set (product_lists (map py_range [k]))
                                then Some 0 else None)\<rparr>"
  have zs: "np_zeros [k] t = Inr z" using k by (simp add: np_zeros_def z_def)
  define arr where "arr = z\<lparr>cells := (\<lambda>i. if i \<in> set (product_lists [py_range k])
                                  then Some (cast g t (h i)) else cells z i)\<rparr>"
  have f: "fill g var [(r, 1)] t (product_lists [py_range k]) z = Inr arr"
    unfolding arr_def using root rp by (rule fill_all)
  have ta: "to_array g var shape = Some (Inr (arr, out))"
    using root w T zs f by (simp add: to_array_def Let_def)
  have c: "\<forall>i. 0 \<le> i \<and> i < k \<longrightarrow> cells arr [i] = Some (cast g t (e i))"
    by (simp add: arr_def h_def in_product1_iff in_py_range del: product_lists.simps)
  have n: "\<forall>idx. idx \<notin> set (product_lists [py_range k]) \<longrightarrow> cells arr idx = None"
    by (simp add: arr_def z_def del: product_lists.simps)
  have "dtype arr = t" "shape_of arr = [k]" by (simp_all add: arr_def z_def)
  then show ?thesis using ta c n by blast
qed

text \<open>
  C2.  A variable whose type is a pointer to a whitelisted scalar, printed
  \<^verbatim>\<open>T *\<close>, converted with the shape hint \<open>(k,)\<close>: the walk takes the single
  bound \<open>k\<close> from the hint, whatever its value; for \<open>0 \<le> k\<close> \<^verbatim>\<open>to_array\<close> returns an
  array of shape \<open>(k,)\<close> whose cell \<open>i\<close> is the cast of \<^verbatim>\<open>var[i]\<close> for all
  \<open>0 \<le> i < k\<close>.  The pointer constructor itself, at any cursor position \<open>c\<close>
  inside any hint, takes exactly the entry at \<open>c\<close> as its only bound and leaves the
  cursor at \<open>c + 1\<close>; no property of the entry is looked at.
\<close>

theorem C2_pointer_to_scalar:
  assumes root: "parse_and_eval g var = Inr root"
    and tn0: "type_name g root = T @ '' *''"
    and tn1: "type_name g (index g root 0) = T"
    and T: "type_list T = Some t"
  shows "get_deref_funcs g root (Some [k]) = Some (Inr (([DeRefPtr], [1], [k], T), [])) \<and>
         (0 \<le> k \<longrightarrow>
            (\<exists>arr. to_array g var (Some [k]) = Some (Inr (arr, [])) \<and>
               dtype arr = t \<and> shape_of arr = [k] \<and>
               (\<forall>i. 0 \<le> i \<and> i < k \<longrightarrow> cells arr [i] = Some (cast g t (index g root i))))) \<and>
         (\<forall>sh c v. c < length sh \<longrightarrow>
            DeRefPtr_init g v (Some c) (Some sh) =
              Inr \<lparr>bounds = [sh ! c], val = index g v 0, shape_ind = Some (c + 1)\<rparr>)"
proof -
  have T': "type_list T \<noteq> None" using T by simp
  have w: "get_deref_funcs g root (Some [k]) = Some (Inr (([DeRefPtr], [1], [k], T), []))"
    using tn0 tn1 T' by (rule walk_ptr1)
  have a: "\<exists>arr. to_array g var (Some [k]) = Some (Inr (arr, [])) \<and>
               dtype arr = t \<and> shape_of arr = [k] \<and>
               (\<forall>i. 0 \<le> i \<and> i < k \<longrightarrow> cells arr [i] = Some (cast g t (index g root i)))"
    if "0 \<le> k"
    using to_array_one_dim [OF root w _ T that, of "\<lambda>i. index g root i"]
    by (auto simp: DeRefPtr_deref_def first_index_def)
  have l: "\<forall>sh c v. c < length sh \<longrightarrow>
            DeRefPtr_init g v (Some c) (Some sh) =
              Inr \<lparr>bounds = [sh ! c], val = index g v 0, shape_ind = Some (c + 1)\<rparr>"
    by (simp add: DeRefPtr_init_ok)
  show ?thesis using w a l by blast
qed

theorem C2_pointer_to_scalar_witness:
  "parse_and_eval (demo_gdb 0) ''p'' = Inr (''int *'', []) \<and>
   type_list ''int'' = Some int32 \<and>
   get_deref_funcs (demo_gdb 0) (''int *'', []) (Some [4]) =
     Some (Inr (([DeRefPtr], [1], [4], ''int''), [])) \<and>
   (\<exists>arr. to_array (demo_gdb 0) ''p'' (Some [4]) = Some (Inr (arr, [])) \<and>
      dtype arr = int32 \<and> shape_of arr = [4] \<and> cells arr [3] = Some 3) \<and>
   DeRefPtr_init (demo_gdb 0) (''int *'', []) (Some 1) (Some [5, -2, 0]) =
     Inr \<lparr>bounds = [-2], val = (''int'', [Idx 0]), shape_ind = Some 2\<rparr>"
proof -
  let ?g = "demo_gdb 0"
  let ?root = "(''int *'', []) :: dval"
  have h1: "parse_and_eval ?g ''p'' = Inr ?root"
    by (simp add: demo_gdb_def demo_vars_def)
  have h2: "type_name ?g ?root = ''int'' @ '' *''"
    by (simp add: demo_gdb_def)
  have h3: "type_name ?g (index ?g ?root 0) = ''int''"
    by (simp add: demo_gdb_def demo_index_def elem_type_def)
  have h4: "type_list ''int'' = Some int32" by (simp add: type_list_def)
  have c: "cast ?g int32 (index ?g ?root 3) = 3"
    by (simp add: demo_gdb_def demo_index_def demo_cast_def)
  have i: "index ?g ?root 0 = (''int'', [Idx 0])"
    by (simp add: demo_gdb_def demo_index_def elem_type_def)
  from C2_pointer_to_scalar [OF h1 h2 h3 h4, of 4]
  have w: "get_deref_funcs ?g ?root (Some [4]) = Some (Inr (([DeRefPtr], [1], [4], ''int''), []))"
    and a: "\<exists>arr. to_array ?g ''p'' (Some [4]) = Some (Inr (arr, [])) \<and>
               dtype arr = int32 \<and> shape_of arr = [4] \<and>
               (\<forall>i. 0 \<le> i \<and> i < 4 \<longrightarrow> cells arr [i] = Some (cast ?g int32 (index ?g ?root i)))"
    and l: "\<forall>sh c v. c < length sh \<longrightarrow>
            DeRefPtr_init ?g v (Some c) (Some sh) =
              Inr \<lparr>bounds = [sh ! c], val = index ?g v 0, shape_ind = Some (c + 1)\<rparr>"
    by auto
  from l have "DeRefPtr_init ?g ?root (Some 1) (Some [5, -2, 0]) =
     Inr \<lparr>bounds = [[5, -2, 0] ! 1], val = index ?g ?root 0, shape_ind = Some (1 + 1)\<rparr>"
    by (auto simp del: One_nat_def)
  then have l': "DeRefPtr_init ?g ?root (Some 1) (Some [5, -2, 0]) =
     Inr \<lparr>bounds = [-2], val = (''int'', [Idx 0]), shape_ind = Some 2\<rparr>"
    using i by simp
  from a c have "\<exists>arr. to_array ?g ''p'' (Some [4]) = Some (Inr (arr, [])) \<and>
      dtype arr = int32 \<and> shape_of arr = [4] \<and> cells arr [3] = Some 3"
    by auto
  then show ?thesis using h1 h4 w l' by simp
qed

section \<open>Claims about arrays of pointers\<close>

lemma to_array_two_dim:
  assumes root: "parse_and_eval g var = Inr root"
    and w: "get_deref_funcs g root shape = Some (Inr (([r1, r2], [1, 1], [m, n], T), out))"
    and r: "\<And>i j. replay g [(r1, 1), (r2, 1)] 0 root [i, j] = Inr (e i j)"
    and T: "type_list T = Some t"
    and nn: "0 \<le> m" "0 \<le> n"
  shows "\<exists>arr. to_array g var shape = Some (Inr (arr, out)) \<and>
           dtype arr = t \<and> shape_of arr = [m, n] \<and>
           (\<forall>i j. 0 \<le> i \<and> i < m \<and> 0 \<le> j \<and> j < n \<longrightarrow>
              cells arr [i, j] = Some (cast g t (e i j)))"
proof -
  define h where "h = (\<lambda>idx :: int list. e (idx ! 0) (idx ! 1))"
  have rp: "\<forall>idx \<in> set (product_lists [py_range m, py_range n]).
             replay g [(r1, 1), (r2, 1)] 0 root idx = Inr (h idx)"
  proof
    fix idx assume "idx \<in> set (product_lists [py_range m, py_range n])"
    then obtain i j where "idx = [i, j]" by (auto dest: in_product2)
    then show "replay g [(r1, 1), (r2, 1)] 0 root idx = Inr (h idx)"
      using r [of i j] by (simp add: h_def)
  qed
  define z :: "'b narray" where "z = \<lparr>dtype = t, shape_of = [m, n],
                cells = (\<lambda>idx. if idx \<in> set (product_lists (map py_range [m, n]))
                                then Some 0 else None)\<rparr>"
  have zs: "np_zeros [m, n] t = Inr z" using nn by (simp add: np_zeros_def z_def)
  define arr where "arr = z\<lparr>cells := (\<lambda>i. if i \<in> set (product_lists [py_range m, py_range n])
                                  then Some (cast g t (h i)) else cells z i)\<rparr>"
  have f: "fill g var [(r1, 1), (r2, 1)] t (product_lists [py_range m, py_range n]) z = Inr arr"
    unfolding arr_def using root rp by (rule fill_all)
  have ta: "to_array g var shape = Some (Inr (arr, out))"
    using root w T zs f by (simp add: to_array_def Let_def)
  have c: "\<forall>i j. 0 \<le> i \<and> i < m \<and> 0 \<le> j \<and> j < n \<longrightarrow>
              cells arr [i, j] = Some (cast g t (e i j))"
    by (simp add: arr_def h_def in_product2_iff in_py_range del: product_lists.simps)
  have "dtype arr = t" "shape_of arr = [m, n]" by (simp_all add: arr_def z_def)
  then show ?thesis using ta c by blast
qed

lemma digits_no_star: "digits d \<Longrightarrow> CHR ''*'' \<notin> set d"
  using is_digit_not_bracket by (auto simp: digits_def)

lemma walk_arr_ptr:
  assumes tn0: "type_name g root = T @ '' *'' @ groups_of [d]"
    and uq0: "type_name_uq g root = T @ '' *'' @ groups_of [d]"
    and tn1: "type_name g (index g root 0) = T @ '' *''"
    and tn2: "type_name g (index g (index g root 0) 0) = T"
    and T: "type_list T \<noteq> None"
    and m: "py_int d = Inr m"
  shows "get_deref_funcs g root (Some [k]) =
           Some (Inr (([DeRefArr, DeRefPtr], [1, 1], [m, k], T), []))"
proof -
  let ?sh = "Some [k]"
  define st0 where "st0 = \<lparr>l_val = root, l_arr_type = get_type g root, l_old_type = None,
                 l_shape_ind = Some (0::nat), l_deref_func = [], l_bounds = [], l_arg_no = []\<rparr>"
  define st1 where "st1 = \<lparr>l_val = index g root 0, l_arr_type = T @ '' *'',
                 l_old_type = Some (T @ '' *'' @ groups_of [d]),
                 l_shape_ind = Some (0::nat), l_deref_func = [DeRefArr], l_bounds = [m],
                 l_arg_no = [1]\<rparr>"
  define st2 where "st2 = \<lparr>l_val = index g (index g root 0) 0, l_arr_type = T,
                 l_old_type = Some (T @ '' *''),
                 l_shape_ind = Some (Suc 0), l_deref_func = [DeRefArr, DeRefPtr],
                 l_bounds = [m, k], l_arg_no = [1, 1]\<rparr>"
  have dg: "digits d" using m by (rule py_int_digits)
  have p1: "CHR '']'' \<notin> set (T @ '' *'')"
    using scalar_no_close [OF T] by simp
  have p2: "CHR ''*'' \<notin> set (T @ '' '')" by (rule scalar_no_star [OF T])
  have "ptr_search ((T @ '' '') @ CHR ''*'' # groups_of [d]) =
          ptr_search (CHR ''*'' # groups_of [d])"
    using p2 by (rule ptr_search_prefix)
  moreover have "\<not> ptr_search (groups_of [d])"
    using digits_no_star [OF dg] by (intro ptr_search_no_star) (simp add: groups_of_def)
  ultimately have np: "\<not> ptr_search (T @ '' *'' @ groups_of [d])"
    by (simp add: groups_of_def at_end_def)
  have as: "arr_search (T @ '' *'' @ groups_of [d]) = Some (groups_of [d])"
    using arr_search_groups [OF p1, of "[d]"] dg by simp
  have o1: "DeRefArr_init g root (Some 0) ?sh =
              Inr \<lparr>bounds = [m], val = index g root 0, shape_ind = Some 0\<rparr>"
    using DeRefArr_init_groups [of g root "T @ '' *''" d "[]" m "Some 0" ?sh] uq0 p1 m by simp
  have o2: "DeRefPtr_init g (index g root 0) (Some 0) ?sh =
              Inr \<lparr>bounds = [k], val = index g (index g root 0) 0, shape_ind = Some (Suc 0)\<rparr>"
    using DeRefPtr_init_ok [of 0 "[k]" g "index g root 0"] by simp
  have s1: "outer_loop g ?sh st0 = outer_loop g ?sh st1"
    using np as o1 scalar_no_vec [OF T, of "'' *''"]
    by (subst outer_step_arr [where obj = "\<lparr>bounds = [m], val = index g root 0, shape_ind = Some 0\<rparr>"])
       (simp_all add: st0_def st1_def get_type_def tn0 tn1)
  have neq: "T @ '' *'' \<noteq> T @ '' *'' @ groups_of [d]" by (simp add: groups_of_def)
  have s2: "outer_loop g ?sh st1 = outer_loop g ?sh st2"
    using ptr_search_scalar_ptr [of T] o2 scalar_no_arr [OF T] scalar_no_vec [OF T, of "[]"] neq
    by (subst outer_step_ptr
          [where obj = "\<lparr>bounds = [k], val = index g (index g root 0) 0, shape_ind = Some (Suc 0)\<rparr>"])
       (simp_all add: st1_def st2_def get_type_def tn1 tn2)
  have s3: "outer_loop g ?sh st2 = Some (Inr (st2\<lparr>l_old_type := Some T\<rparr>))"
    using scalar_no_ptr [OF T] scalar_no_arr [OF T] scalar_no_vec [OF T, of "[]"]
    by (subst outer_step_none) (simp_all add: st2_def get_type_def tn2)
  show ?thesis
    using s1 s2 s3
    by (simp add: get_deref_funcs_def Let_def st0_def [symmetric] shape_truthy_def)
       (simp add: st2_def surplus_notice_def shape_ind_truthy_def)
qed

text \<open>
  C3.  A variable whose type is a fixed-size array of pointers to a whitelisted
  scalar, printed \<^verbatim>\<open>T *[d]\<close> with \<open>d\<close> denoting \<open>m\<close>, converted with the shape hint
  \<open>(k,)\<close>: the walk finds the array layer first and the pointer layer second, and
  returns the bounds \<open>(m, k)\<close> in that order, \<open>m\<close> read from the type name and \<open>k\<close>
  from the hint; for \<open>0 \<le> k\<close> \<^verbatim>\<open>to_array\<close> returns an array of shape \<open>(m, k)\<close> whose
  cell \<open>(i, j)\<close> is the cast of \<^verbatim>\<open>var[i][j]\<close>.
\<close>

theorem C3_array_of_pointers:
  assumes root: "parse_and_eval g var = Inr root"
    and tn0: "type_name g root = T @ '' *['' @ d @ '']''"
    and uq0: "type_name_uq g root = T @ '' *['' @ d @ '']''"
    and tn1: "type_name g (index g root 0) = T @ '' *''"
    and tn2: "type_name g (index g (index g root 0) 0) = T"
    and T: "type_list T = Some t"
    and m: "py_int d = Inr m"
  shows "get_deref_funcs g root (Some [k]) =
           Some (Inr (([DeRefArr, DeRefPtr], [1, 1], [m, k], T), [])) \<and>
         (0 \<le> k \<longrightarrow>
            (\<exists>arr. to_array g var (Some [k]) = Some (Inr (arr, [])) \<and>
               dtype arr = t \<and> shape_of arr = [m, k] \<and>
               (\<forall>i j. 0 \<le> i \<and> i < m \<and> 0 \<le> j \<and> j < k \<longrightarrow>
                  cells arr [i, j] = Some (cast g t (index g (index g root i) j)))))"
proof -
  have T': "type_list T \<noteq> None" using T by simp
  have w: "get_deref_funcs g root (Some [k]) =
           Some (Inr (([DeRefArr, DeRefPtr], [1, 1], [m, k], T), []))"
    using walk_arr_ptr [of g root T d m k] tn0 uq0 tn1 tn2 T' m by (simp add: groups_of_def)
  have rp: "\<And>i j. replay g [(DeRefArr, 1), (DeRefPtr, 1)] 0 root [i, j] =
                   Inr (index g (index g root i) j)"
    by (simp add: DeRefArr_deref_def DeRefPtr_deref_def first_index_def)
  have "0 \<le> m" using m by (rule py_int_nonneg)
  then have "\<exists>arr. to_array g var (Some [k]) = Some (Inr (arr, [])) \<and>
               dtype arr = t \<and> shape_of arr = [m, k] \<and>
               (\<forall>i j. 0 \<le> i \<and> i < m \<and> 0 \<le> j \<and> j < k \<longrightarrow>
                  cells arr [i, j] = Some (cast g t (index g (index g root i) j)))"
    if "0 \<le> k"
    using to_array_two_dim [OF root w rp T _ that] by simp
  then show ?thesis using w by blast
qed

theorem C3_array_of_pointers_witness:
  "parse_and_eval (demo_gdb 0) ''ap'' = Inr (''int *[2]'', []) \<and>
   type_list ''int'' = Some int32 \<and> py_int ''2'' = Inr 2 \<and>
   get_deref_funcs (demo_gdb 0) (''int *[2]'', []) (Some [5]) =
     Some (Inr (([DeRefArr, DeRefPtr], [1, 1], [2, 5], ''int''), [])) \<and>
   (\<exists>arr. to_array (demo_gdb 0) ''ap'' (Some [5]) = Some (Inr (arr, [])) \<and>
      dtype arr = int32 \<and> shape_of arr = [2, 5] \<and> cells arr [1, 4] = Some 14)"
proof -
  let ?g = "demo_gdb 0"
  let ?root = "(''int *[2]'', []) :: dval"
  have h1: "parse_and_eval ?g ''ap'' = Inr ?root"
    by (simp add: demo_gdb_def demo_vars_def)
  have h2: "type_name ?g ?root = ''int'' @ '' *['' @ ''2'' @ '']''"
    "type_name_uq ?g ?root = ''int'' @ '' *['' @ ''2'' @ '']''"
    by (simp_all add: demo_gdb_def)
  have h3: "type_name ?g (index ?g ?root 0) = ''int'' @ '' *''"
    by (simp add: demo_gdb_def demo_index_def elem_type_def)
  have h4: "type_name ?g (index ?g (index ?g ?root 0) 0) = ''int''"
    by (simp add: demo_gdb_def demo_index_def elem_type_def)
  have h5: "type_list ''int'' = Some int32" by (simp add: type_list_def)
  have h6: "py_int ''2'' = Inr 2"
    by (simp add: py_int_def is_digit_def digit_val_def)
  have c: "cast ?g int32 (index ?g (index ?g ?root 1) 4) = 14"
    by (simp add: demo_gdb_def demo_index_def demo_cast_def)
  from C3_array_of_pointers [OF h1 h2 h3 h4 h5 h6, of 5] c
  show ?thesis using h1 h5 h6 by auto
qed

section \<open>Claims about sequence containers\<close>

lemma outer_loop_body:
  "outer_loop g shape st =
     (if Some (l_arr_type st) \<noteq> l_old_type st then
        (case outer_body g shape st of
           Inl e \<Rightarrow> Some (Inl e)
         | Inr st' \<Rightarrow> outer_loop g shape st')
      else Some (Inr st))"
  by (subst outer_loop_unfold) (simp add: outer_body_def split: sum.splits)

lemma reaches_outer_loop:
  "walk_reaches g shape st0 st \<Longrightarrow> outer_loop g shape st0 = outer_loop g shape st"
proof (induction rule: walk_reaches.induct)
  case start
  show ?case by simp
next
  case (step st st')
  have "outer_loop g shape st = outer_loop g shape st'"
    using step.hyps(2,3) by (subst outer_loop_body) simp
  with step.IH show ?case by simp
qed

lemma get_deref_funcs_init:
  "get_deref_funcs g v shape =
     (case outer_loop g shape (init_locals g v shape) of
        None \<Rightarrow> None
      | Some (Inl e) \<Rightarrow> Some (Inl e)
      | Some (Inr st) \<Rightarrow>
          (case surplus_notice (l_shape_ind st) shape of
             Inl e \<Rightarrow> Some (Inl e)
           | Inr out \<Rightarrow>
               Some (Inr ((l_deref_func st, l_arg_no st, l_bounds st, l_arr_type st), out))))"
  by (simp add: get_deref_funcs_def init_locals_def Let_def)

lemma walk_fails:
  assumes "walk_reaches g shape (init_locals g root shape) st"
    and "Some (l_arr_type st) \<noteq> l_old_type st"
    and "outer_body g shape st = Inl e"
  shows "get_deref_funcs g root shape = Some (Inl e)"
proof -
  have "outer_loop g shape st = Some (Inl e)"
    using assms(2,3) by (subst outer_loop_body) simp
  then show ?thesis
    using reaches_outer_loop [OF assms(1)] by (simp add: get_deref_funcs_init)
qed

lemma to_array_walk_fails:
  assumes "parse_and_eval g var = Inr root"
    and "walk_reaches g shape (init_locals g root shape) st"
    and "Some (l_arr_type st) \<noteq> l_old_type st"
    and "outer_body g shape st = Inl e"
  shows "to_array g var shape = Some (Inl e)"
  using walk_fails [OF assms(2,3,4)] assms(1) by (simp add: to_array_def)

lemma walk_vec:
  assumes v: "vec_search (type_name g root)"
    and np: "\<not> ptr_search (type_name g root)"
    and na: "arr_search (type_name g root) = None"
    and tn1: "type_name g (index g (field g (field g root ''_M_impl'') ''_M_start'') 0) = T"
    and T: "type_list T \<noteq> None"
  shows "get_deref_funcs g root shape =
           Some (Inr (([DeRefVec], [1],
                       [ptr_diff g (field g (field g root ''_M_impl'') ''_M_finish'')
                                   (field g (field g root ''_M_impl'') ''_M_start'')], T), []))"
proof -
  let ?e = "index g (field g (field g root ''_M_impl'') ''_M_start'') 0"
  let ?L = "ptr_diff g (field g (field g root ''_M_impl'') ''_M_finish'')
                       (field g (field g root ''_M_impl'') ''_M_start'')"
  define si where "si = (if shape_truthy shape then Some (0::nat) else None)"
  define st0 where "st0 = \<lparr>l_val = root, l_arr_type = get_type g root, l_old_type = None,
                 l_shape_ind = si, l_deref_func = [], l_bounds = [], l_arg_no = []\<rparr>"
  define st1 where "st1 = \<lparr>l_val = ?e, l_arr_type = T,
                 l_old_type = Some (type_name g root),
                 l_shape_ind = si, l_deref_func = [DeRefVec], l_bounds = [?L],
                 l_arg_no = [1]\<rparr>"
  have neq: "T \<noteq> type_name g root"
    using v scalar_no_vec [OF T, of "[]"] by auto
  have s1: "outer_loop g shape st0 = outer_loop g shape st1"
    using v np na DeRefVec_init_ok [of g root si shape]
    by (subst outer_step_vec [where obj = "\<lparr>bounds = [?L], val = ?e, shape_ind = si\<rparr>"])
       (simp_all add: st0_def st1_def get_type_def tn1)
  have s2: "outer_loop g shape st1 = Some (Inr (st1\<lparr>l_old_type := Some T\<rparr>))"
    using scalar_no_ptr [OF T] scalar_no_arr [OF T] scalar_no_vec [OF T, of "[]"] neq
    by (subst outer_step_none) (simp_all add: st1_def get_type_def tn1)
  have "surplus_notice si shape = Inr []"
    by (cases shape) (simp_all add: si_def surplus_notice_def shape_ind_truthy_def shape_truthy_def)
  then show ?thesis
    using s1 s2
    by (simp add: get_deref_funcs_def Let_def st0_def [symmetric] si_def [symmetric])
       (simp add: st1_def)
qed

lemma surplus_notice_Some:
  "surplus_notice (Some c) (Some sh) =
     Inr (if c \<noteq> 0 \<and> c \<noteq> length sh then [msg_not_all_used] else [])"
  by (simp add: surplus_notice_def shape_ind_truthy_def)

text \<open>
  C7, as the code has it.  A variable that is a sequence container (the vector
  pattern matches its type name, the pointer and array patterns do not) of a
  whitelisted scalar, with \<open>0 \<le> L\<close> for \<open>L = _M_finish - _M_start\<close>: whatever shape
  hint is passed, \<^verbatim>\<open>to_array\<close> succeeds and returns an array of shape \<open>(L,)\<close> whose
  cell \<open>i\<close> is the cast of \<^verbatim>\<open>_M_start[i]\<close>, and it prints nothing.  The notice is
  printed by \<^verbatim>\<open>_get_deref_funcs\<close> only for a cursor that is neither 0 nor the length
  of the hint.
\<close>

theorem C7_vector_shape_no_notice:
  assumes root: "parse_and_eval g var = Inr root"
    and v: "vec_search (type_name g root)"
    and np: "\<not> ptr_search (type_name g root)"
    and na: "arr_search (type_name g root) = None"
    and tn1: "type_name g (index g (field g (field g root ''_M_impl'') ''_M_start'') 0) = T"
    and T: "type_list T = Some t"
    and L: "L = ptr_diff g (field g (field g root ''_M_impl'') ''_M_finish'')
                          (field g (field g root ''_M_impl'') ''_M_start'')"
    and nn: "0 \<le> L"
  shows "(\<exists>arr. to_array g var shape = Some (Inr (arr, [])) \<and>
            dtype arr = t \<and> shape_of arr = [L] \<and>
            (\<forall>i. 0 \<le> i \<and> i < L \<longrightarrow>
               cells arr [i] =
                 Some (cast g t (index g (field g (field g root ''_M_impl'') ''_M_start'') i)))) \<and>
         (\<forall>c sh. surplus_notice (Some c) (Some sh) =
            Inr (if c \<noteq> 0 \<and> c \<noteq> length sh then [msg_not_all_used] else []))"
proof -
  have T': "type_list T \<noteq> None" using T by simp
  have w: "get_deref_funcs g root shape = Some (Inr (([DeRefVec], [1], [L], T), []))"
    unfolding L using v np na tn1 T' by (rule walk_vec)
  have "\<exists>arr. to_array g var shape = Some (Inr (arr, [])) \<and>
            dtype arr = t \<and> shape_of arr = [L] \<and>
            (\<forall>i. 0 \<le> i \<and> i < L \<longrightarrow>
               cells arr [i] =
                 Some (cast g t (index g (field g (field g root ''_M_impl'') ''_M_start'') i)))"
    using to_array_one_dim [OF root w _ T nn,
        of "\<lambda>i. index g (field g (field g root ''_M_impl'') ''_M_start'') i"]
    by (auto simp: DeRefVec_deref_def first_index_def)
  then show ?thesis by (simp add: surplus_notice_Some)
qed

lemma demo_vec_facts:
  "parse_and_eval (demo_gdb len) ''v'' = Inr (''std::vector<int, std::allocator<int> >'', [])"
  "vec_search (type_name (demo_gdb len) (''std::vector<int, std::allocator<int> >'', []))"
  "\<not> ptr_search (type_name (demo_gdb len) (''std::vector<int, std::allocator<int> >'', []))"
  "arr_search (type_name (demo_gdb len) (''std::vector<int, std::allocator<int> >'', [])) = None"
  "type_name (demo_gdb len)
     (index (demo_gdb len)
        (field (demo_gdb len)
           (field (demo_gdb len) (''std::vector<int, std::allocator<int> >'', []) ''_M_impl'')
           ''_M_start'') 0) = ''int''"
  "ptr_diff (demo_gdb len)
     (field (demo_gdb len)
        (field (demo_gdb len) (''std::vector<int, std::allocator<int> >'', []) ''_M_impl'')
        ''_M_finish'')
     (field (demo_gdb len)
        (field (demo_gdb len) (''std::vector<int, std::allocator<int> >'', []) ''_M_impl'')
        ''_M_start'') = len"
  by (simp_all add: demo_gdb_def demo_vars_def vec_search_def at_end_def groups_to_end_def
      demo_index_def demo_field_def member_type_def elem_type_def)

theorem C7_vector_shape_no_notice_witness:
  "parse_and_eval (demo_gdb 2) ''v'' = Inr (''std::vector<int, std::allocator<int> >'', []) \<and>
   type_list ''int'' = Some int32 \<and>
   (\<exists>arr. to_array (demo_gdb 2) ''v'' (Some [3]) = Some (Inr (arr, [])) \<and>
      dtype arr = int32 \<and> shape_of arr = [2] \<and> cells arr [1] = Some 1) \<and>
   surplus_notice (Some 1) (Some [3, 4]) = Inr [msg_not_all_used]"
proof -
  let ?g = "demo_gdb 2"
  let ?root = "(''std::vector<int, std::allocator<int> >'', []) :: dval"
  have T: "type_list ''int'' = Some int32" by (simp add: type_list_def)
  have c: "cast ?g int32 (index ?g (field ?g (field ?g ?root ''_M_impl'') ''_M_start'') 1) = 1"
    by (simp add: demo_gdb_def demo_index_def demo_field_def demo_cast_def)
  from C7_vector_shape_no_notice
         [OF demo_vec_facts(1-5) T demo_vec_facts(6) [symmetric], of 2 "Some [3]"]
  have a: "\<exists>arr. to_array ?g ''v'' (Some [3]) = Some (Inr (arr, [])) \<and>
            dtype arr = int32 \<and> shape_of arr = [2] \<and>
            (\<forall>i. 0 \<le> i \<and> i < 2 \<longrightarrow>
               cells arr [i] =
                 Some (cast ?g int32 (index ?g (field ?g (field ?g ?root ''_M_impl'') ''_M_start'') i)))"
    and n: "\<forall>c sh. surplus_notice (Some c) (Some sh) =
            Inr (if c \<noteq> 0 \<and> c \<noteq> length sh then [msg_not_all_used] else [])"
    by auto
  from a c have "\<exists>arr. to_array ?g ''v'' (Some [3]) = Some (Inr (arr, [])) \<and>
      dtype arr = int32 \<and> shape_of arr = [2] \<and> cells arr [1] = Some 1"
    by auto
  moreover from n have "surplus_notice (Some 1) (Some [3, 4]) = Inr [msg_not_all_used]"
    by simp
  ultimately show ?thesis using demo_vec_facts(1) [of 2] T by simp
qed

text \<open>The claim's notice fails on the demo vector of two elements converted with
  the non-empty hint \<open>(3,)\<close>: the array of shape \<open>(2,)\<close> comes back and nothing is
  printed.\<close>

theorem C7_notice_counterexample:
  "returned_shape (to_array (demo_gdb 2) ''v'' (Some [3])) = Some [2] \<and>
   printed (to_array (demo_gdb 2) ''v'' (Some [3])) = Some []"
proof -
  have T: "type_list ''int'' = Some int32" by (simp add: type_list_def)
  have w: "get_deref_funcs (demo_gdb 2) (''std::vector<int, std::allocator<int> >'', []) (Some [3])
             = Some (Inr (([DeRefVec], [1], [2], ''int''), []))"
    using walk_vec [OF demo_vec_facts(2-5), of 2 "Some [3]"] T
    by (simp add: demo_vec_facts(6))
  obtain arr where "to_array (demo_gdb 2) ''v'' (Some [3]) = Some (Inr (arr, []))"
    "shape_of arr = [2]"
    using to_array_one_dim [OF demo_vec_facts(1) w _ T,
        of "\<lambda>i. index (demo_gdb 2) (field (demo_gdb 2) (field (demo_gdb 2)
              (''std::vector<int, std::allocator<int> >'', []) ''_M_impl'') ''_M_start'') i"]
    by (auto simp: DeRefVec_deref_def first_index_def)
  then show ?thesis by (simp add: returned_shape_def printed_def)
qed

section \<open>The discovery access\<close>

lemma construct_discovery:
  assumes "construct g r v si shape = Inr obj"
  shows "method_deref g r v [0] = Inr (val obj)"
proof (cases r)
  case DeRefPtr
  then show ?thesis using assms
    by (auto simp: DeRefPtr_init_def DeRefPtr_update_def DeRefBase_init_def DeRefPtr_deref_def
        first_index_def get_range_from_shape_def Let_def split: if_splits option.splits)
next
  case DeRefArr
  then show ?thesis using assms
    by (auto simp: DeRefArr_init_def DeRefArr_update_def DeRefBase_init_def DeRefArr_deref_def
        first_index_def Let_def split: if_splits option.splits sum.splits)
next
  case DeRefVec
  then show ?thesis using assms
    by (auto simp: DeRefVec_init_def DeRefVec_update_def DeRefBase_init_def DeRefVec_deref_def
        first_index_def Let_def)
qed

lemma walk_vec_state:
  assumes v: "vec_search (type_name g root)"
    and np: "\<not> ptr_search (type_name g root)"
    and na: "arr_search (type_name g root) = None"
    and tn1: "type_name g (index g (field g (field g root ''_M_impl'') ''_M_start'') 0) = T"
    and T: "type_list T \<noteq> None"
  shows "outer_loop g shape (init_locals g root shape) =
           Some (Inr \<lparr>l_val = index g (field g (field g root ''_M_impl'') ''_M_start'') 0,
                      l_arr_type = T, l_old_type = Some T,
                      l_shape_ind = (if shape_truthy shape then Some 0 else None),
                      l_deref_func = [DeRefVec],
                      l_bounds = [ptr_diff g (field g (field g root ''_M_impl'') ''_M_finish'')
                                             (field g (field g root ''_M_impl'') ''_M_start'')],
                      l_arg_no = [1]\<rparr>)"
proof -
  let ?e = "index g (field g (field g root ''_M_impl'') ''_M_start'') 0"
  let ?L = "ptr_diff g (field g (field g root ''_M_impl'') ''_M_finish'')
                       (field g (field g root ''_M_impl'') ''_M_start'')"
  define si where "si = (if shape_truthy shape then Some (0::nat) else None)"
  define st1 where "st1 = \<lparr>l_val = ?e, l_arr_type = T,
                 l_old_type = Some (type_name g root),
                 l_shape_ind = si, l_deref_func = [DeRefVec], l_bounds = [?L],
                 l_arg_no = [1]\<rparr>"
  have neq: "T \<noteq> type_name g root"
    using v scalar_no_vec [OF T, of "[]"] by auto
  have s1: "outer_loop g shape (init_locals g root shape) = outer_loop g shape st1"
    using v np na DeRefVec_init_ok [of g root si shape]
    by (subst outer_step_vec [where obj = "\<lparr>bounds = [?L], val = ?e, shape_ind = si\<rparr>"])
       (simp_all add: init_locals_def si_def st1_def get_type_def tn1)
  have s2: "outer_loop g shape st1 = Some (Inr (st1\<lparr>l_old_type := Some T\<rparr>))"
    using scalar_no_ptr [OF T] scalar_no_arr [OF T] scalar_no_vec [OF T, of "[]"] neq
    by (subst outer_step_none) (simp_all add: st1_def get_type_def tn1)
  show ?thesis using s1 s2 by (simp add: st1_def si_def)
qed

lemma to_array_empty_vec:
  assumes root: "parse_and_eval g var = Inr root"
    and v: "vec_search (type_name g root)"
    and np: "\<not> ptr_search (type_name g root)"
    and na: "arr_search (type_name g root) = None"
    and tn1: "type_name g (index g (field g (field g root ''_M_impl'') ''_M_start'') 0) = T"
    and T: "type_list T = Some t"
    and L: "ptr_diff g (field g (field g root ''_M_impl'') ''_M_finish'')
                      (field g (field g root ''_M_impl'') ''_M_start'') = 0"
  shows "to_array g var shape =
           Some (Inr (\<lparr>dtype = t, shape_of = [0], cells = (\<lambda>idx. None)\<rparr>, []))"
proof -
  have T': "type_list T \<noteq> None" using T by simp
  have w: "get_deref_funcs g root shape = Some (Inr (([DeRefVec], [1], [0], T), []))"
    using walk_vec [OF v np na tn1 T', of shape] L by simp
  have e: "product_lists (map py_range [0]) = []"
    by (simp add: py_range_def)
  have zs: "np_zeros [0] t = Inr (\<lparr>dtype = t, shape_of = [0], cells = (\<lambda>idx. None)\<rparr> :: 'b narray)"
    using e by (simp add: np_zeros_def)
  show ?thesis
    using root w T zs e by (simp add: to_array_def Let_def)
qed

lemma traced_sel:
  "index (traced g) a i = (index g (fst a) i, snd a @ [Idx i])"
  "field (traced g) a f = (field g (fst a) f, snd a @ [Fld f])"
  by (simp_all add: traced_def)

text \<open>
  C10.  Whatever its bound, a layer constructor that succeeds leaves as its
  value the result of one index access, at index 0: \<^verbatim>\<open>w[0]\<close> for a pointer or an
  array \<open>w\<close>, \<^verbatim>\<open>w['_M_impl']['_M_start'][0]\<close> for a vector, whose bound is read from
  the two markers alone.  On a debugger that records accesses, the value a
  constructor leaves has the record of its argument extended by exactly one index
  access, the one at 0 (after the two field accesses, for a vector).  For a
  sequence container of a whitelisted scalar whose \<^verbatim>\<open>_M_finish - _M_start\<close> is 0,
  the walk still ends on the element \<^verbatim>\<open>_M_start[0]\<close> and takes the terminal type
  from it, and \<^verbatim>\<open>to_array\<close> succeeds: the index space is empty, the array returned
  is the one \<^verbatim>\<open>np.zeros\<close> allocated for shape \<open>(0,)\<close>, and the result is the same for
  every cast, since no cell is ever cast or written.
\<close>

theorem C10_discovery_access:
  assumes root: "parse_and_eval g var = Inr root"
    and v: "vec_search (type_name g root)"
    and np: "\<not> ptr_search (type_name g root)"
    and na: "arr_search (type_name g root) = None"
    and tn1: "type_name g (index g (field g (field g root ''_M_impl'') ''_M_start'') 0) = T"
    and T: "type_list T = Some t"
    and L: "ptr_diff g (field g (field g root ''_M_impl'') ''_M_finish'')
                      (field g (field g root ''_M_impl'') ''_M_start'') = 0"
  shows "(\<forall>w si sh obj. construct g DeRefPtr w si sh = Inr obj \<longrightarrow> val obj = index g w 0) \<and>
         (\<forall>w si sh obj. construct g DeRefArr w si sh = Inr obj \<longrightarrow> val obj = index g w 0) \<and>
         (\<forall>w si sh.
            construct g DeRefVec w si sh =
              Inr \<lparr>bounds = [ptr_diff g (field g (field g w ''_M_impl'') ''_M_finish'')
                                         (field g (field g w ''_M_impl'') ''_M_start'')],
                   val = index g (field g (field g w ''_M_impl'') ''_M_start'') 0,
                   shape_ind = si\<rparr>) \<and>
         (\<forall>r w p si sh obj. construct (traced g) r (w, p) si sh = Inr obj \<longrightarrow>
            snd (val obj) =
              p @ (case r of
                     DeRefPtr \<Rightarrow> [Idx 0]
                   | DeRefArr \<Rightarrow> [Idx 0]
                   | DeRefVec \<Rightarrow> [Fld ''_M_impl'', Fld ''_M_start'', Idx 0])) \<and>
         (\<exists>st. outer_loop g shape (init_locals g root shape) = Some (Inr st) \<and>
               l_val st = index g (field g (field g root ''_M_impl'') ''_M_start'') 0 \<and>
               l_arr_type st = T) \<and>
         get_deref_funcs g root shape = Some (Inr (([DeRefVec], [1], [0], T), [])) \<and>
         product_lists (map py_range [0]) = [] \<and>
         (\<exists>arr. to_array g var shape = Some (Inr (arr, [])) \<and>
            np_zeros [0] t = Inr arr \<and> shape_of arr = [0] \<and> cells arr = (\<lambda>idx. None)) \<and>
         (\<forall>c. to_array (g\<lparr>cast := c\<rparr>) var shape = to_array g var shape)"
proof -
  have T': "type_list T \<noteq> None" using T by simp
  have c1: "\<forall>w si sh obj. construct g DeRefPtr w si sh = Inr obj \<longrightarrow> val obj = index g w 0"
  proof (intro allI impI)
    fix w si sh obj assume "construct g DeRefPtr w si sh = Inr obj"
    from construct_discovery [OF this] show "val obj = index g w 0"
      by (simp add: DeRefPtr_deref_def first_index_def)
  qed
  have c2: "\<forall>w si sh obj. construct g DeRefArr w si sh = Inr obj \<longrightarrow> val obj = index g w 0"
  proof (intro allI impI)
    fix w si sh obj assume "construct g DeRefArr w si sh = Inr obj"
    from construct_discovery [OF this] show "val obj = index g w 0"
      by (simp add: DeRefArr_deref_def first_index_def)
  qed
  have c3: "\<forall>w si sh.
            construct g DeRefVec w si sh =
              Inr \<lparr>bounds = [ptr_diff g (field g (field g w ''_M_impl'') ''_M_finish'')
                                         (field g (field g w ''_M_impl'') ''_M_start'')],
                   val = index g (field g (field g w ''_M_impl'') ''_M_start'') 0,
                   shape_ind = si\<rparr>"
    by (simp add: DeRefVec_init_ok)
  have c4: "\<forall>r w p si sh obj. construct (traced g) r (w, p) si sh = Inr obj \<longrightarrow>
            snd (val obj) =
              p @ (case r of
                     DeRefPtr \<Rightarrow> [Idx 0]
                   | DeRefArr \<Rightarrow> [Idx 0]
                   | DeRefVec \<Rightarrow> [Fld ''_M_impl'', Fld ''_M_start'', Idx 0])"
  proof (intro allI impI)
    fix r w p si sh obj assume "construct (traced g) r (w, p) si sh = Inr obj"
    from construct_discovery [OF this]
    have "Inr (val obj) = method_deref (traced g) r (w, p) [0]" by simp
    then show "snd (val obj) =
              p @ (case r of
                     DeRefPtr \<Rightarrow> [Idx 0]
                   | DeRefArr \<Rightarrow> [Idx 0]
                   | DeRefVec \<Rightarrow> [Fld ''_M_impl'', Fld ''_M_start'', Idx 0])"
      by (cases r)
         (auto simp: DeRefPtr_deref_def DeRefArr_deref_def DeRefVec_deref_def first_index_def
            traced_sel)
  qed
  have c5: "\<exists>st. outer_loop g shape (init_locals g root shape) = Some (Inr st) \<and>
               l_val st = index g (field g (field g root ''_M_impl'') ''_M_start'') 0 \<and>
               l_arr_type st = T"
    using walk_vec_state [OF v np na tn1 T', of shape] by simp
  have w: "get_deref_funcs g root shape = Some (Inr (([DeRefVec], [1], [0], T), []))"
    using walk_vec [OF v np na tn1 T', of shape] L by simp
  have e: "product_lists (map py_range [0]) = []"
    by (simp add: py_range_def)
  have ta: "to_array g var shape =
           Some (Inr (\<lparr>dtype = t, shape_of = [0], cells = (\<lambda>idx. None)\<rparr>, []))"
    using root v np na tn1 T L by (rule to_array_empty_vec)
  have zs: "np_zeros [0] t = Inr (\<lparr>dtype = t, shape_of = [0], cells = (\<lambda>idx. None)\<rparr> :: 'b narray)"
    using e by (simp add: np_zeros_def)
  have c8: "\<exists>arr. to_array g var shape = Some (Inr (arr, [])) \<and>
            np_zeros [0] t = Inr arr \<and> shape_of arr = [0] \<and> cells arr = (\<lambda>idx. None)"
    using ta zs by simp
  have c9: "\<forall>c. to_array (g\<lparr>cast := c\<rparr>) var shape = to_array g var shape"
  proof
    fix c
    have "to_array (g\<lparr>cast := c\<rparr>) var shape =
           Some (Inr (\<lparr>dtype = t, shape_of = [0], cells = (\<lambda>idx. None)\<rparr>, []))"
      using root v np na tn1 T L
      by (intro to_array_empty_vec [where root = root and T = T]) simp_all
    then show "to_array (g\<lparr>cast := c\<rparr>) var shape = to_array g var shape"
      using ta by simp
  qed
  show ?thesis using c1 c2 c3 c4 c5 w e c8 c9 by (intro conjI)
qed

theorem C10_discovery_access_witness:
  "parse_and_eval (demo_gdb 0) ''v'' = Inr (''std::vector<int, std::allocator<int> >'', []) \<and>
   type_list ''int'' = Some int32 \<and>
   construct (demo_gdb 0) DeRefPtr (''int *'', []) (Some 0) (Some [9]) =
     Inr \<lparr>bounds = [9], val = (''int'', [Idx 0]), shape_ind = Some 1\<rparr> \<and>
   index (demo_gdb 0) (''int *'', []) 0 = (''int'', [Idx 0]) \<and>
   construct (traced (demo_gdb 0)) DeRefVec
       ((''std::vector<int, std::allocator<int> >'', []), []) None None =
     Inr \<lparr>bounds = [0],
          val = ((''int'', [Fld ''_M_impl'', Fld ''_M_start'', Idx 0]),
                 [Fld ''_M_impl'', Fld ''_M_start'', Idx 0]),
          shape_ind = None\<rparr> \<and>
   get_deref_funcs (demo_gdb 0) (''std::vector<int, std::allocator<int> >'', []) None =
     Some (Inr (([DeRefVec], [1], [0], ''int''), [])) \<and>
   (\<exists>arr. to_array (demo_gdb 0) ''v'' None = Some (Inr (arr, [])) \<and>
      shape_of arr = [0] \<and> cells arr = (\<lambda>idx. None)) \<and>
   to_array ((demo_gdb 0)\<lparr>cast := (\<lambda>t a. 7)\<rparr>) ''v'' None = to_array (demo_gdb 0) ''v'' None"
proof -
  let ?g = "demo_gdb 0"
  let ?root = "(''std::vector<int, std::allocator<int> >'', []) :: dval"
  have T: "type_list ''int'' = Some int32" by (simp add: type_list_def)
  have c: "construct ?g DeRefPtr (''int *'', []) (Some 0) (Some [9]) =
     Inr \<lparr>bounds = [9], val = (''int'', [Idx 0]), shape_ind = Some 1\<rparr>"
    using DeRefPtr_init_ok [of 0 "[9]" ?g "(''int *'', [])"]
    by (simp add: demo_gdb_def demo_index_def elem_type_def)
  note inst = C10_discovery_access [OF demo_vec_facts(1-5) T demo_vec_facts(6), of None]
  have p1: "\<forall>w si sh obj. construct ?g DeRefPtr w si sh = Inr obj \<longrightarrow> val obj = index ?g w 0"
    by (rule conjunct1 [OF inst])
  from p1 c have i: "index ?g (''int *'', []) 0 = (''int'', [Idx 0])"
    by fastforce
  have tv: "construct (traced ?g) DeRefVec (?root, []) None None =
     Inr \<lparr>bounds = [0],
          val = ((''int'', [Fld ''_M_impl'', Fld ''_M_start'', Idx 0]),
                 [Fld ''_M_impl'', Fld ''_M_start'', Idx 0]),
          shape_ind = None\<rparr>"
    by (simp add: DeRefVec_init_ok traced_def demo_gdb_def demo_index_def demo_field_def
        member_type_def elem_type_def)
  have rest: "get_deref_funcs ?g ?root None = Some (Inr (([DeRefVec], [1], [0], ''int''), [])) \<and>
         product_lists (map py_range [0 :: int]) = [] \<and>
         (\<exists>arr. to_array ?g ''v'' None = Some (Inr (arr, [])) \<and>
            np_zeros [0] int32 = Inr arr \<and> shape_of arr = [0] \<and> cells arr = (\<lambda>idx. None)) \<and>
         (\<forall>c. to_array (?g\<lparr>cast := c\<rparr>) ''v'' None = to_array ?g ''v'' None)"
    by (rule conjunct2 [OF conjunct2 [OF conjunct2 [OF conjunct2 [OF conjunct2 [OF inst]]]]])
  then have w: "get_deref_funcs ?g ?root None = Some (Inr (([DeRefVec], [1], [0], ''int''), []))"
    and a: "\<exists>arr. to_array ?g ''v'' None = Some (Inr (arr, [])) \<and>
            np_zeros [0] int32 = Inr arr \<and> shape_of arr = [0] \<and> cells arr = (\<lambda>idx. None)"
    and ci: "\<forall>c. to_array (?g\<lparr>cast := c\<rparr>) ''v'' None = to_array ?g ''v'' None"
    by simp_all
  from a have a': "\<exists>arr. to_array ?g ''v'' None = Some (Inr (arr, [])) \<and>
      shape_of arr = [0] \<and> cells arr = (\<lambda>idx. None)"
    by blast
  from ci have ci': "to_array (?g\<lparr>cast := (\<lambda>t a. 7)\<rparr>) ''v'' None = to_array ?g ''v'' None"
    by (rule spec)
  show ?thesis using demo_vec_facts(1) [of 0] T c i tv w a' ci' by (intro conjI)
qed

section \<open>Claims about failures\<close>

lemma type_list_None_iff:
  "type_list dt = None \<longleftrightarrow>
     dt \<notin> {''unsigned char'', ''unsigned int'', ''char'', ''short'', ''int'', ''float'', ''double''}"
  by (simp add: type_list_def)

text \<open>
  C8.  When the walk ends on a type name that is not one of the seven keys of
  \<^verbatim>\<open>_type_list\<close>, \<^verbatim>\<open>to_array\<close> raises \<^verbatim>\<open>KeyError\<close> for that name and returns no
  array.  The lookup is evaluated before \<^verbatim>\<open>np.zeros\<close> is called: the error is the
  same whatever the bounds are, also for bounds \<^verbatim>\<open>np.zeros\<close> would refuse.
\<close>

theorem C8_unknown_scalar_type:
  assumes root: "parse_and_eval g var = Inr v"
    and w: "get_deref_funcs g v shape = Some (Inr ((fs, an, bs, dt), out))"
    and nt: "dt \<notin> {''unsigned char'', ''unsigned int'', ''char'', ''short'', ''int'',
                     ''float'', ''double''}"
  shows "to_array g var shape = Some (Inl (KeyError dt))"
proof -
  have "type_list dt = None" by (rule iffD2 [OF type_list_None_iff nt])
  then show ?thesis using root w by (simp add: to_array_def Let_def)
qed

lemmas demo_simps =
  demo_gdb_def demo_vars_def demo_index_def demo_field_def elem_type_def member_type_def
  get_type_def at_end_def groups_to_end_def vec_search_def

lemma demo_walk_lp:
  "get_deref_funcs (demo_gdb 0) (''long *'', []) (Some [-1]) =
     Some (Inr (([DeRefPtr], [1], [-1], ''long''), []))"
proof -
  let ?g = "demo_gdb 0"
  let ?sh = "Some [-1 :: int]"
  define st0 :: "dval locals" where "st0 = \<lparr>l_val = (''long *'', []), l_arr_type = ''long *'',
      l_old_type = None, l_shape_ind = Some 0, l_deref_func = [], l_bounds = [], l_arg_no = []\<rparr>"
  define st1 :: "dval locals" where "st1 = \<lparr>l_val = (''long'', [Idx 0]), l_arr_type = ''long'',
      l_old_type = Some ''long *'', l_shape_ind = Some (Suc 0), l_deref_func = [DeRefPtr],
      l_bounds = [-1], l_arg_no = [1]\<rparr>"
  have o: "DeRefPtr_init ?g (''long *'', []) (Some 0) ?sh =
             Inr \<lparr>bounds = [-1], val = (''long'', [Idx 0]), shape_ind = Some (Suc 0)\<rparr>"
    using DeRefPtr_init_ok [of 0 "[-1]" ?g "(''long *'', [])"] by (simp add: demo_simps)
  have s1: "outer_loop ?g ?sh st0 = outer_loop ?g ?sh st1"
    using o
    by (subst outer_step_ptr
          [where obj = "\<lparr>bounds = [-1], val = (''long'', [Idx 0]), shape_ind = Some (Suc 0)\<rparr>"])
       (simp_all add: st0_def st1_def demo_simps)
  have s2: "outer_loop ?g ?sh st1 = Some (Inr (st1\<lparr>l_old_type := Some ''long''\<rparr>))"
    by (subst outer_step_none) (simp_all add: st1_def demo_simps)
  show ?thesis
    using s1 s2
    by (simp add: get_deref_funcs_def Let_def shape_truthy_def st0_def [symmetric]
          get_type_def demo_gdb_def [of 0, THEN arg_cong, of type_name])
       (simp add: st1_def surplus_notice_def shape_ind_truthy_def)
qed

theorem C8_unknown_scalar_type_witness:
  "parse_and_eval (demo_gdb 0) ''lp'' = Inr (''long *'', []) \<and>
   get_deref_funcs (demo_gdb 0) (''long *'', []) (Some [-1]) =
     Some (Inr (([DeRefPtr], [1], [-1], ''long''), [])) \<and>
   to_array (demo_gdb 0) ''lp'' (Some [-1]) = Some (Inl (KeyError ''long''))"
proof -
  have r: "parse_and_eval (demo_gdb 0) ''lp'' = Inr (''long *'', [])"
    by (simp add: demo_simps)
  have n: "''long'' \<notin> {''unsigned char'', ''unsigned int'', ''char'', ''short'', ''int'',
                     ''float'', ''double''}"
    by simp
  from C8_unknown_scalar_type [OF r demo_walk_lp n] r demo_walk_lp
  show ?thesis by simp
qed

lemma outer_body_ptr_fails:
  assumes "ptr_search (get_type g (l_val st))"
    and "DeRefPtr_init g (l_val st) (l_shape_ind st) shape = Inl e"
  shows "outer_body g shape st = Inl e"
  using assms by (simp add: outer_body_def ptr_list_def)

lemma DeRefPtr_init_None: "DeRefPtr_init g v si None = Inl (ValueError msg_shape_needed)"
  by (simp add: DeRefPtr_init_def)

lemma DeRefPtr_init_exhausted:
  "DeRefPtr_init g v (Some (length sh)) (Some sh) = Inl (IndexError msg_insufficient)"
  by (simp add: DeRefPtr_init_def DeRefPtr_update_def DeRefBase_init_def DeRefPtr_deref_def
      first_index_def get_range_from_shape_def Let_def)

text \<open>
  The two reported errors for a missing bound.  Let the type walk of \<^verbatim>\<open>to_array\<close>
  stand at the head of its loop with a value whose type name matches the pointer
  pattern.  If the shape hint is absent, the call raises \<^verbatim>\<open>ValueError\<close> "Array shape
  must be specified for pointer type."; if a hint is there and the cursor stands
  at its length, the call raises \<^verbatim>\<open>IndexError\<close> "Insufficient number of bounds.
  ...".  In both cases no array is returned.  A cursor is only ever set for a
  non-empty hint, so the second case never applies to the empty hint.
\<close>

lemma pointer_missing_bound:
  assumes root: "parse_and_eval g var = Inr root"
    and reach: "walk_reaches g shape (init_locals g root shape) st"
    and cont: "Some (l_arr_type st) \<noteq> l_old_type st"
    and ptr: "ptr_search (get_type g (l_val st))"
    and ex: "case shape of None \<Rightarrow> True | Some sh \<Rightarrow> l_shape_ind st = Some (length sh)"
  shows "to_array g var shape =
           Some (Inl (case shape of
                        None \<Rightarrow> ValueError msg_shape_needed
                      | Some sh \<Rightarrow> IndexError msg_insufficient))"
proof (cases shape)
  case None
  have "outer_body g shape st = Inl (ValueError msg_shape_needed)"
    using ptr by (rule outer_body_ptr_fails) (simp add: None DeRefPtr_init_None)
  from to_array_walk_fails [OF root reach cont this] show ?thesis by (simp add: None)
next
  case (Some sh)
  then have "l_shape_ind st = Some (length sh)" using ex by simp
  then have "outer_body g shape st = Inl (IndexError msg_insufficient)"
    using ptr by (intro outer_body_ptr_fails) (simp_all add: Some DeRefPtr_init_exhausted)
  from to_array_walk_fails [OF root reach cont this] show ?thesis by (simp add: Some)
qed

lemma demo_pp_step:
  "outer_body (demo_gdb 0) (Some [3]) (init_locals (demo_gdb 0) (''int **'', []) (Some [3])) =
     Inr \<lparr>l_val = (''int *'', [Idx 0]), l_arr_type = ''int *'', l_old_type = Some ''int **'',
          l_shape_ind = Some 1, l_deref_func = [DeRefPtr], l_bounds = [3], l_arg_no = [1]\<rparr>"
proof -
  have o: "DeRefPtr_init (demo_gdb 0) (''int **'', []) (Some 0) (Some [3]) =
             Inr \<lparr>bounds = [3], val = (''int *'', [Idx 0]), shape_ind = Some (Suc 0)\<rparr>"
    using DeRefPtr_init_ok [of 0 "[3]" "demo_gdb 0" "(''int **'', [])"] by (simp add: demo_simps)
  show ?thesis
    using o
    by (simp add: outer_body_def init_locals_def shape_truthy_def ptr_list_def container_list_def
        demo_simps)
qed

lemma pointer_missing_bound_demo:
  "parse_and_eval (demo_gdb 0) ''p'' = Inr (''int *'', []) \<and>
   to_array (demo_gdb 0) ''p'' None = Some (Inl (ValueError msg_shape_needed)) \<and>
   parse_and_eval (demo_gdb 0) ''pp'' = Inr (''int **'', []) \<and>
   to_array (demo_gdb 0) ''pp'' (Some [3]) = Some (Inl (IndexError msg_insufficient))"
proof -
  let ?g = "demo_gdb 0"
  have r1: "parse_and_eval ?g ''p'' = Inr (''int *'', [])" by (simp add: demo_simps)
  have a: "to_array ?g ''p'' None = Some (Inl (ValueError msg_shape_needed))"
    using pointer_missing_bound [OF r1 walk_reaches.start, of None]
    by (simp add: init_locals_def demo_simps)
  have r2: "parse_and_eval ?g ''pp'' = Inr (''int **'', [])" by (simp add: demo_simps)
  let ?st1 = "\<lparr>l_val = (''int *'', [Idx 0]), l_arr_type = ''int *'', l_old_type = Some ''int **'',
          l_shape_ind = Some 1, l_deref_func = [DeRefPtr], l_bounds = [3], l_arg_no = [1]\<rparr>
          :: dval locals"
  have reach: "walk_reaches ?g (Some [3]) (init_locals ?g (''int **'', []) (Some [3])) ?st1"
    by (rule walk_reaches.step [OF walk_reaches.start _ demo_pp_step])
       (simp add: init_locals_def)
  have b: "to_array ?g ''pp'' (Some [3]) = Some (Inl (IndexError msg_insufficient))"
    using pointer_missing_bound [OF r2 reach] by (simp add: demo_simps)
  show ?thesis using r1 a r2 b by simp
qed

text \<open>
  C5.  The claim at the empty hint.  For the pointer \<^verbatim>\<open>p\<close> of the demo session,
  \<^verbatim>\<open>to_array('p', ())\<close> reaches a Pointer layer with no hint entry left to claim,
  and raises \<^verbatim>\<open>TypeError\<close> from \<^verbatim>\<open>None + 1\<close>, where the sibling calls raise the two
  reported errors: \<^verbatim>\<open>to_array('p')\<close> the \<^verbatim>\<open>ValueError\<close>, and \<^verbatim>\<open>to_array('pp', (3,))\<close>,
  whose second pointer finds the hint used up, the \<^verbatim>\<open>IndexError\<close>.
\<close>

theorem C5_empty_hint_failing_input:
  "to_array (demo_gdb 0) ''p'' (Some []) =
     Some (Inl (TypeError ''unsupported operand type(s) for +: NoneType and int'')) \<and>
   to_array (demo_gdb 0) ''p'' None = Some (Inl (ValueError msg_shape_needed)) \<and>
   to_array (demo_gdb 0) ''pp'' (Some [3]) = Some (Inl (IndexError msg_insufficient))"
proof -
  let ?g = "demo_gdb 0"
  let ?st = "init_locals ?g (''int *'', []) (Some [])"
  have r: "parse_and_eval ?g ''p'' = Inr (''int *'', [])" by (simp add: demo_simps)
  have c: "Some (l_arr_type ?st) \<noteq> l_old_type ?st" by (simp add: init_locals_def)
  have p: "ptr_search (get_type ?g (l_val ?st))" by (simp add: init_locals_def demo_simps)
  have d: "DeRefPtr_init ?g (l_val ?st) (l_shape_ind ?st) (Some []) =
             Inl (TypeError ''unsupported operand type(s) for +: NoneType and int'')"
    by (simp add: init_locals_def shape_truthy_def DeRefPtr_init_def DeRefPtr_update_def
        DeRefBase_init_def DeRefPtr_deref_def first_index_def get_range_from_shape_def Let_def)
  have b: "outer_body ?g (Some []) ?st =
             Inl (TypeError ''unsupported operand type(s) for +: NoneType and int'')"
    using p d by (rule outer_body_ptr_fails)
  have a: "to_array ?g ''p'' (Some []) =
     Some (Inl (TypeError ''unsupported operand type(s) for +: NoneType and int''))"
    using r walk_reaches.start c b by (rule to_array_walk_fails)
  show ?thesis using a pointer_missing_bound_demo by (intro conjI) simp_all
qed

lemma construct_keeps_None:
  assumes "construct g r v None shape = Inr obj"
  shows "shape_ind obj = None"
proof (cases r)
  case DeRefPtr
  then show ?thesis using assms
    by (auto simp: DeRefPtr_init_def DeRefPtr_update_def DeRefBase_init_def DeRefPtr_deref_def
        first_index_def get_range_from_shape_def Let_def split: if_splits)
next
  case DeRefArr
  then show ?thesis using assms
    by (auto simp: DeRefArr_init_def DeRefArr_update_def DeRefBase_init_def DeRefArr_deref_def
        first_index_def Let_def split: if_splits option.splits sum.splits)
next
  case DeRefVec
  then show ?thesis using assms
    by (auto simp: DeRefVec_init_def DeRefVec_update_def DeRefBase_init_def DeRefVec_deref_def
        first_index_def Let_def)
qed

lemma deref_keeps_None:
  "deref g rs shape st = Inr st' \<Longrightarrow> l_shape_ind st = None \<Longrightarrow> l_shape_ind st' = None"
proof (induction rs arbitrary: st)
  case Nil
  then show ?case by simp
next
  case (Cons r rs)
  show ?case
  proof (cases "pattern_search r (get_type g (l_val st))")
    case False
    then show ?thesis using Cons by simp
  next
    case True
    then obtain obj where c: "construct g r (l_val st) None shape = Inr obj"
      using Cons.prems by (auto split: sum.splits)
    have "shape_ind obj = None" using c by (rule construct_keeps_None)
    then show ?thesis using Cons.prems True c
      by (auto intro!: Cons.IH [where st = "st\<lparr>l_val := val obj,
                   l_shape_ind := shape_ind obj,
                   l_deref_func := l_deref_func st @ [r],
                   l_bounds := l_bounds st @ bounds obj,
                   l_arg_no := l_arg_no st @ [length (bounds obj)]\<rparr>"])
  qed
qed

lemma outer_body_keeps_None:
  assumes "outer_body g shape st = Inr st'" and "l_shape_ind st = None"
  shows "l_shape_ind st' = None"
proof -
  let ?s = "st\<lparr>l_arr_type := get_type g (l_val st), l_old_type := Some (get_type g (l_val st))\<rparr>"
  obtain st1 st2 where 1: "deref g ptr_list shape ?s = Inr st1"
    and 2: "deref g container_list shape st1 = Inr st2"
    and 3: "st' = st2\<lparr>l_arr_type := get_type g (l_val st2)\<rparr>"
    using assms(1) by (auto simp: outer_body_def split: sum.splits)
  have "l_shape_ind st1 = None" using 1 assms(2) by (intro deref_keeps_None [OF 1]) simp
  then have "l_shape_ind st2 = None" by (rule deref_keeps_None [OF 2])
  then show ?thesis by (simp add: 3)
qed

lemma reaches_keeps_None:
  "walk_reaches g shape st0 st \<Longrightarrow> l_shape_ind st0 = None \<Longrightarrow> l_shape_ind st = None"
  by (induction rule: walk_reaches.induct) (auto dest: outer_body_keeps_None)

text \<open>
  C9.  \<^verbatim>\<open>to_array\<close> called with an empty shape hint: the cursor is \<open>None\<close> at every
  state of the type walk, since only a non-empty hint sets it to 0.  When the walk
  stands at a value whose type name matches the pointer pattern, the pointer
  constructor passes its \<^verbatim>\<open>shape is None\<close> check and fails in
  \<^verbatim>\<open>_get_range_from_shape\<close> on \<^verbatim>\<open>None + 1\<close>: the call raises \<^verbatim>\<open>TypeError\<close>, which is
  neither the missing-shape \<^verbatim>\<open>ValueError\<close> nor the insufficient-bounds
  \<^verbatim>\<open>IndexError\<close>.
\<close>

theorem C9_empty_hint_type_error:
  assumes root: "parse_and_eval g var = Inr root"
    and reach: "walk_reaches g (Some []) (init_locals g root (Some [])) st"
    and cont: "Some (l_arr_type st) \<noteq> l_old_type st"
    and ptr: "ptr_search (get_type g (l_val st))"
  shows "l_shape_ind st = None \<and>
         get_range_from_shape \<lparr>bounds = [], val = index g (l_val st) 0, shape_ind = None\<rparr>
             (Some []) 1 =
           Inl (TypeError ''unsupported operand type(s) for +: NoneType and int'') \<and>
         DeRefPtr_init g (l_val st) (l_shape_ind st) (Some []) =
           get_range_from_shape \<lparr>bounds = [], val = index g (l_val st) 0, shape_ind = None\<rparr>
             (Some []) 1 \<and>
         to_array g var (Some []) =
           Some (Inl (TypeError ''unsupported operand type(s) for +: NoneType and int'')) \<and>
         raised (to_array g var (Some [])) \<noteq> Some (ValueError msg_shape_needed) \<and>
         raised (to_array g var (Some [])) \<noteq> Some (IndexError msg_insufficient)"
proof -
  have n: "l_shape_ind st = None"
    using reach by (rule reaches_keeps_None) (simp add: init_locals_def shape_truthy_def)
  have gr: "get_range_from_shape \<lparr>bounds = [], val = index g (l_val st) 0, shape_ind = None\<rparr>
             (Some []) 1 =
           Inl (TypeError ''unsupported operand type(s) for +: NoneType and int'')"
    by (simp add: get_range_from_shape_def)
  have di: "DeRefPtr_init g (l_val st) (l_shape_ind st) (Some []) =
           get_range_from_shape \<lparr>bounds = [], val = index g (l_val st) 0, shape_ind = None\<rparr>
             (Some []) 1"
    by (simp add: n DeRefPtr_init_def DeRefPtr_update_def DeRefBase_init_def DeRefPtr_deref_def
        first_index_def Let_def)
  have "outer_body g (Some []) st =
          Inl (TypeError ''unsupported operand type(s) for +: NoneType and int'')"
    using ptr by (rule outer_body_ptr_fails) (simp only: di gr)
  from to_array_walk_fails [OF root reach cont this]
  have ta: "to_array g var (Some []) =
           Some (Inl (TypeError ''unsupported operand type(s) for +: NoneType and int''))" .
  show ?thesis using n gr di ta by (simp add: raised_def)
qed

theorem C9_empty_hint_type_error_witness:
  "parse_and_eval (demo_gdb 0) ''p'' = Inr (''int *'', []) \<and>
   to_array (demo_gdb 0) ''p'' (Some []) =
     Some (Inl (TypeError ''unsupported operand type(s) for +: NoneType and int'')) \<and>
   raised (to_array (demo_gdb 0) ''p'' (Some [])) \<noteq> Some (ValueError msg_shape_needed) \<and>
   raised (to_array (demo_gdb 0) ''p'' (Some [])) \<noteq> Some (IndexError msg_insufficient)"
proof -
  let ?g = "demo_gdb 0"
  have r1: "parse_and_eval ?g ''p'' = Inr (''int *'', [])" by (simp add: demo_simps)
  have c: "Some (l_arr_type (init_locals ?g (''int *'', []) (Some []))) \<noteq>
             l_old_type (init_locals ?g (''int *'', []) (Some []))"
    by (simp add: init_locals_def)
  have p: "ptr_search (get_type ?g (l_val (init_locals ?g (''int *'', []) (Some []))))"
    by (simp add: init_locals_def demo_simps)
  note inst = C9_empty_hint_type_error [OF r1 walk_reaches.start c p]
  from inst have "to_array ?g ''p'' (Some []) =
     Some (Inl (TypeError ''unsupported operand type(s) for +: NoneType and int''))"
    by (elim conjE)
  moreover from inst
  have "raised (to_array ?g ''p'' (Some [])) \<noteq> Some (ValueError msg_shape_needed)"
    by (elim conjE)
  moreover from inst
  have "raised (to_array ?g ''p'' (Some [])) \<noteq> Some (IndexError msg_insufficient)"
    by (elim conjE)
  ultimately show ?thesis using r1 by (intro conjI)
qed

lemma deref_two:
  "deref g [r1, r2] shape st =
     (case deref g [r1] shape st of Inl e \<Rightarrow> Inl e | Inr st1 \<Rightarrow> deref g [r2] shape st1)"
  by (simp split: sum.splits)

lemma DeRefArr_init_empty_dim:
  "has_empty_dim (type_name_uq g v) \<Longrightarrow>
     DeRefArr_init g v si shape = Inl (GdbError msg_missing_dims)"
  by (simp add: DeRefArr_init_def DeRefArr_update_def DeRefBase_init_def Let_def)

text \<open>
  C6.  Let the type walk of \<^verbatim>\<open>to_array\<close> stand at the head of its loop, and let
  the pointer test of this pass leave the value \<open>w\<close> (the value itself when its
  type is no pointer, its target after a pointer layer).  If the type name of \<open>w\<close>
  matches the array pattern and contains an empty bracket pair, the array
  constructor raises \<^verbatim>\<open>gdb.error\<close> "Missing array dimensions. ..." and so does
  \<^verbatim>\<open>to_array\<close>, for every shape hint, present or not: no bound 0 is made up and no
  entry of the hint is used.
\<close>

theorem C6_unsized_array:
  assumes root: "parse_and_eval g var = Inr root"
    and reach: "walk_reaches g shape (init_locals g root shape) st"
    and cont: "Some (l_arr_type st) \<noteq> l_old_type st"
    and pt: "deref g [DeRefPtr] shape
               (st\<lparr>l_arr_type := get_type g (l_val st),
                   l_old_type := Some (get_type g (l_val st))\<rparr>) = Inr st1"
    and arr: "arr_search (get_type g (l_val st1)) \<noteq> None"
    and emp: "has_empty_dim (type_name_uq g (l_val st1))"
  shows "DeRefArr_init g (l_val st1) (l_shape_ind st1) shape = Inl (GdbError msg_missing_dims) \<and>
         to_array g var shape = Some (Inl (GdbError msg_missing_dims))"
proof -
  have c: "DeRefArr_init g (l_val st1) (l_shape_ind st1) shape = Inl (GdbError msg_missing_dims)"
    using emp by (rule DeRefArr_init_empty_dim)
  have "deref g [DeRefArr] shape st1 = Inl (GdbError msg_missing_dims)"
    using arr c by simp
  then have "outer_body g shape st = Inl (GdbError msg_missing_dims)"
    using pt by (simp add: outer_body_def ptr_list_def deref_two del: deref.simps)
  from to_array_walk_fails [OF root reach cont this] c show ?thesis by simp
qed

theorem C6_unsized_array_witness:
  "parse_and_eval (demo_gdb 0) ''u'' = Inr (''int []'', []) \<and>
   arr_search ''int []'' = Some ''[]'' \<and> has_empty_dim ''int []'' \<and>
   DeRefArr_init (demo_gdb 0) (''int []'', []) (Some 0) (Some [4]) =
     Inl (GdbError msg_missing_dims) \<and>
   to_array (demo_gdb 0) ''u'' (Some [4]) = Some (Inl (GdbError msg_missing_dims))"
proof -
  let ?g = "demo_gdb 0"
  let ?st = "init_locals ?g (''int []'', []) (Some [4])"
  have r: "parse_and_eval ?g ''u'' = Inr (''int []'', [])" by (simp add: demo_simps)
  have c: "Some (l_arr_type ?st) \<noteq> l_old_type ?st" by (simp add: init_locals_def)
  have pt: "deref ?g [DeRefPtr] (Some [4])
              (?st\<lparr>l_arr_type := get_type ?g (l_val ?st),
                   l_old_type := Some (get_type ?g (l_val ?st))\<rparr>) =
            Inr (?st\<lparr>l_arr_type := ''int []'', l_old_type := Some ''int []''\<rparr>)"
    by (simp add: init_locals_def demo_simps)
  have a: "arr_search ''int []'' = Some ''[]''"
    by (simp add: groups_to_end_def match_text_def)
  have e: "has_empty_dim ''int []''" by simp
  have a': "arr_search (get_type ?g (l_val (?st\<lparr>l_arr_type := ''int []'',
               l_old_type := Some ''int []''\<rparr>))) \<noteq> None"
    using a by (simp add: init_locals_def demo_simps)
  have e': "has_empty_dim (type_name_uq ?g (l_val (?st\<lparr>l_arr_type := ''int []'',
               l_old_type := Some ''int []''\<rparr>)))"
    by (simp add: init_locals_def demo_simps)
  from C6_unsized_array [OF r walk_reaches.start c pt a' e']
  have "DeRefArr_init ?g (''int []'', []) (Some 0) (Some [4]) = Inl (GdbError msg_missing_dims)"
    and "to_array ?g ''u'' (Some [4]) = Some (Inl (GdbError msg_missing_dims))"
    by (simp_all add: init_locals_def shape_truthy_def)
  then show ?thesis using r a e by simp
qed

section \<open>The invariant of a completed composition\<close>

lemma replay_append:
  "replay g (xs @ ys) s v idx =
     (case replay g xs s v idx of
        Inl e \<Rightarrow> Inl e
      | Inr v' \<Rightarrow> replay g ys (s + sum_list (map snd xs)) v' idx)"
  by (induction xs arbitrary: s v) (auto simp: Let_def add.assoc split: sum.splits)

lemma construct_one_bound:
  assumes "construct g r v si shape = Inr obj"
  shows "length (bounds obj) = 1"
proof (cases r)
  case DeRefPtr
  then show ?thesis using assms
    by (auto simp: DeRefPtr_init_def DeRefPtr_update_def DeRefBase_init_def DeRefPtr_deref_def
        first_index_def get_range_from_shape_def Let_def split: if_splits option.splits)
next
  case DeRefArr
  then show ?thesis using assms
    by (auto simp: DeRefArr_init_def DeRefArr_update_def DeRefBase_init_def DeRefArr_deref_def
        first_index_def Let_def split: if_splits option.splits sum.splits)
next
  case DeRefVec
  then show ?thesis using assms
    by (auto simp: DeRefVec_init_def DeRefVec_update_def DeRefBase_init_def DeRefVec_deref_def
        first_index_def Let_def)
qed

lemma static_index:
  "static_typed g \<Longrightarrow> type_name g v = type_name g w \<Longrightarrow>
     type_name g (index g v i) = type_name g (index g w j)"
  unfolding static_typed_def by blast

lemma static_field:
  "static_typed g \<Longrightarrow> type_name g v = type_name g w \<Longrightarrow>
     type_name g (field g v f) = type_name g (field g w f)"
  unfolding static_typed_def by blast

lemma method_deref_type:
  assumes s: "static_typed g" and t: "type_name g w = type_name g v"
  shows "\<exists>w' v'. method_deref g r w [i] = Inr w' \<and> method_deref g r v [0] = Inr v' \<and>
           type_name g w' = type_name g v'"
proof (cases r)
  case DeRefPtr
  then show ?thesis using static_index [OF s t, of i 0]
    by (simp add: DeRefPtr_deref_def first_index_def)
next
  case DeRefArr
  then show ?thesis using static_index [OF s t, of i 0]
    by (simp add: DeRefArr_deref_def first_index_def)
next
  case DeRefVec
  have "type_name g (field g (field g w ''_M_impl'') ''_M_start'') =
        type_name g (field g (field g v ''_M_impl'') ''_M_start'')"
    using s t by (intro static_field) auto
  from static_index [OF s this, of i 0] DeRefVec show ?thesis
    by (simp add: DeRefVec_deref_def first_index_def)
qed

lemma walk_inv_extend:
  assumes inv: "walk_inv g root st"
    and c: "construct g r (l_val st) (l_shape_ind st) shape = Inr obj"
  shows "walk_inv g root
           (st\<lparr>l_val := val obj,
               l_shape_ind := shape_ind obj,
               l_deref_func := l_deref_func st @ [r],
               l_bounds := l_bounds st @ bounds obj,
               l_arg_no := l_arg_no st @ [length (bounds obj)]\<rparr>)"
proof -
  let ?fs = "l_deref_func st" and ?an = "l_arg_no st" and ?bs = "l_bounds st"
  have len: "length ?fs = length ?an" and sum: "sum_list ?an = length ?bs"
    using inv by (simp_all add: walk_inv_def)
  have b1: "length (bounds obj) = 1" using c by (rule construct_one_bound)
  have d0: "method_deref g r (l_val st) [0] = Inr (val obj)"
    using c by (rule construct_discovery)
  have z: "zip (?fs @ [r]) (?an @ [1]) = zip ?fs ?an @ [(r, 1)]"
    using len by simp
  have ms: "sum_list (map snd (zip ?fs ?an)) = length ?bs"
    using len sum by (simp add: map_snd_zip)
  have rp: "\<exists>v. replay g (zip (?fs @ [r]) (?an @ [1])) 0 root idx = Inr v \<and>
                type_name g v = type_name g (val obj)"
    if s: "static_typed g" and l: "length ?bs + 1 \<le> length idx" for idx
  proof -
    have "length ?bs \<le> length idx" using l by simp
    with inv s have "\<exists>v. replay g (zip ?fs ?an) 0 root idx = Inr v \<and>
                         type_name g v = type_name g (l_val st)"
      unfolding walk_inv_def by blast
    then obtain v where v: "replay g (zip ?fs ?an) 0 root idx = Inr v"
      and tv: "type_name g v = type_name g (l_val st)"
      by blast
    have sl: "take 1 (drop (length ?bs) idx) = [idx ! length ?bs]"
      using l by (simp add: take_Suc_conv_app_nth hd_drop_conv_nth take_Suc)
    obtain w' where w': "method_deref g r v [idx ! length ?bs] = Inr w'"
      and tw: "type_name g w' = type_name g (val obj)"
      using method_deref_type [OF s tv, of r "idx ! length ?bs"] d0 by auto
    have "replay g (zip ?fs ?an @ [(r, 1)]) 0 root idx = Inr w'"
      using v w' sl ms by (simp add: replay_append Let_def)
    then show ?thesis using tw z by simp
  qed
  show ?thesis
    using len sum b1 rp by (simp add: walk_inv_def)
qed

lemma deref_inv:
  "deref g rs shape st = Inr st' \<Longrightarrow> walk_inv g root st \<Longrightarrow> walk_inv g root st'"
proof (induction rs arbitrary: st)
  case Nil
  then show ?case by simp
next
  case (Cons r rs)
  show ?case
  proof (cases "pattern_search r (get_type g (l_val st))")
    case False
    then show ?thesis using Cons by simp
  next
    case True
    then obtain obj where c: "construct g r (l_val st) (l_shape_ind st) shape = Inr obj"
      using Cons.prems by (auto split: sum.splits)
    let ?s = "st\<lparr>l_val := val obj,
               l_shape_ind := shape_ind obj,
               l_deref_func := l_deref_func st @ [r],
               l_bounds := l_bounds st @ bounds obj,
               l_arg_no := l_arg_no st @ [length (bounds obj)]\<rparr>"
    have "deref g rs shape ?s = Inr st'" using Cons.prems(1) True c by simp
    moreover have "walk_inv g root ?s" using Cons.prems(2) c by (rule walk_inv_extend)
    ultimately show ?thesis by (rule Cons.IH)
  qed
qed

lemma walk_inv_types:
  "walk_inv g root (st\<lparr>l_arr_type := a, l_old_type := b\<rparr>) = walk_inv g root st"
  "walk_inv g root (st\<lparr>l_arr_type := a\<rparr>) = walk_inv g root st"
  by (simp_all add: walk_inv_def)

lemma outer_body_inv:
  assumes "outer_body g shape st = Inr st'" and "walk_inv g root st"
  shows "walk_inv g root st' \<and> l_arr_type st' = get_type g (l_val st')"
proof -
  let ?s = "st\<lparr>l_arr_type := get_type g (l_val st), l_old_type := Some (get_type g (l_val st))\<rparr>"
  obtain st1 st2 where 1: "deref g ptr_list shape ?s = Inr st1"
    and 2: "deref g container_list shape st1 = Inr st2"
    and 3: "st' = st2\<lparr>l_arr_type := get_type g (l_val st2)\<rparr>"
    using assms(1) by (auto simp: outer_body_def split: sum.splits)
  have "walk_inv g root ?s" using assms(2) by (simp add: walk_inv_types)
  with 1 have "walk_inv g root st1" by (rule deref_inv)
  with 2 have "walk_inv g root st2" by (rule deref_inv)
  then show ?thesis by (simp add: 3 walk_inv_types)
qed

lemma reaches_inv:
  "walk_reaches g shape st0 st \<Longrightarrow> walk_inv g root st0 \<Longrightarrow>
     l_arr_type st0 = get_type g (l_val st0) \<Longrightarrow>
     walk_inv g root st \<and> l_arr_type st = get_type g (l_val st)"
  by (induction rule: walk_reaches.induct) (auto dest: outer_body_inv)

lemma reaches_prepend:
  assumes "walk_reaches g shape st1 st'"
    and "Some (l_arr_type st) \<noteq> l_old_type st"
    and "outer_body g shape st = Inr st1"
  shows "walk_reaches g shape st st'"
  using assms(1)
proof (induction rule: walk_reaches.induct)
  case start
  show ?case by (rule walk_reaches.step [OF walk_reaches.start assms(2,3)])
next
  case (step s s')
  then show ?case by (auto intro: walk_reaches.step)
qed

lemma outer_loop_reaches:
  "outer_loop g shape st = Some y \<Longrightarrow> y = Inr st' \<Longrightarrow> walk_reaches g shape st st'"
proof (induction arbitrary: st' rule: outer_loop.raw_induct [rotated 1, consumes 1])
  case (1 loop g shape st y)
  show ?case
  proof (cases "Some (l_arr_type st) \<noteq> l_old_type st")
    case False
    then have "y = Inr st" using "1.hyps" by simp
    then show ?thesis using "1.prems" by (auto intro: walk_reaches.start)
  next
    case True
    then obtain st1 where b: "outer_body g shape st = Inr st1" and l: "loop g shape st1 = Some y"
      using "1.hyps" "1.prems"
      by (auto simp: inner_loop_once outer_body_def split: sum.splits)
    from "1.IH" [OF l "1.prems"] have "walk_reaches g shape st1 st'" .
    then show ?thesis using True b by (rule reaches_prepend)
  qed
qed

lemma walk_inv_init: "walk_inv g root (init_locals g root shape)"
  by (simp add: walk_inv_def init_locals_def)

lemma demo_static: "static_typed (demo_gdb len)"
  by (auto simp: static_typed_def demo_gdb_def demo_index_def demo_field_def
      split: option.splits)

lemma c_typed_index:
  "c_typed g rank \<Longrightarrow> ptr_search (type_name g v) \<or> arr_search (type_name g v) \<noteq> None \<Longrightarrow>
     rank (type_name g (index g v i)) < rank (type_name g v)"
  unfolding c_typed_def by (elim conjE, erule allE [of _ v], erule allE [of _ i]) (elim impE, assumption+)

lemma c_typed_vec:
  "c_typed g rank \<Longrightarrow> vec_search (type_name g v) \<Longrightarrow>
     rank (type_name g (index g (field g (field g v ''_M_impl'') ''_M_start'') i))
       < rank (type_name g v)"
  by (simp add: c_typed_def)

lemma c_typed_static: "c_typed g rank \<Longrightarrow> static_typed g"
  by (simp add: c_typed_def)

lemma construct_rank:
  assumes ct: "c_typed g rank"
    and p: "pattern_search r (get_type g v)"
    and c: "construct g r v si shape = Inr obj"
  shows "rank (type_name g (val obj)) < rank (type_name g v)"
proof -
  have d: "method_deref g r v [0] = Inr (val obj)" using c by (rule construct_discovery)
  show ?thesis
  proof (cases r)
    case DeRefPtr
    then have "val obj = index g v 0" using d by (simp add: DeRefPtr_deref_def first_index_def)
    moreover have "ptr_search (type_name g v)" using p DeRefPtr by (simp add: get_type_def)
    ultimately show ?thesis using c_typed_index [OF ct, of v 0] by simp
  next
    case DeRefArr
    then have "val obj = index g v 0" using d by (simp add: DeRefArr_deref_def first_index_def)
    moreover have "arr_search (type_name g v) \<noteq> None" using p DeRefArr by (simp add: get_type_def)
    ultimately show ?thesis using c_typed_index [OF ct, of v 0] by simp
  next
    case DeRefVec
    then have "val obj = index g (field g (field g v ''_M_impl'') ''_M_start'') 0"
      using d by (simp add: DeRefVec_deref_def first_index_def)
    moreover have "vec_search (type_name g v)" using p DeRefVec by (simp add: get_type_def)
    ultimately show ?thesis using c_typed_vec [OF ct, of v 0] by simp
  qed
qed

lemma deref_rank:
  assumes ct: "c_typed g rank"
  shows "deref g rs shape st = Inr st' \<Longrightarrow>
           rank (type_name g (l_val st')) < rank (type_name g (l_val st)) \<or>
           (st' = st \<and> (\<forall>r \<in> set rs. \<not> pattern_search r (get_type g (l_val st))))"
proof (induction rs arbitrary: st)
  case Nil
  then show ?case by simp
next
  case (Cons r rs)
  show ?case
  proof (cases "pattern_search r (get_type g (l_val st))")
    case False
    then have "deref g rs shape st = Inr st'" using Cons.prems by simp
    from Cons.IH [OF this] False show ?thesis by auto
  next
    case True
    then obtain obj where c: "construct g r (l_val st) (l_shape_ind st) shape = Inr obj"
      using Cons.prems by (auto split: sum.splits)
    let ?s = "st\<lparr>l_val := val obj,
               l_shape_ind := shape_ind obj,
               l_deref_func := l_deref_func st @ [r],
               l_bounds := l_bounds st @ bounds obj,
               l_arg_no := l_arg_no st @ [length (bounds obj)]\<rparr>"
    have d: "deref g rs shape ?s = Inr st'" using Cons.prems True c by simp
    have lt: "rank (type_name g (val obj)) < rank (type_name g (l_val st))"
      using ct True c by (rule construct_rank)
    from Cons.IH [OF d] have "rank (type_name g (l_val st')) \<le> rank (type_name g (val obj))"
      by auto
    then show ?thesis using lt by simp
  qed
qed

lemma outer_body_types:
  assumes "outer_body g shape st = Inr st'"
  shows "l_old_type st' = Some (get_type g (l_val st)) \<and> l_arr_type st' = get_type g (l_val st')"
proof -
  let ?s = "st\<lparr>l_arr_type := get_type g (l_val st), l_old_type := Some (get_type g (l_val st))\<rparr>"
  obtain st1 st2 where 1: "deref g ptr_list shape ?s = Inr st1"
    and 2: "deref g container_list shape st1 = Inr st2"
    and 3: "st' = st2\<lparr>l_arr_type := get_type g (l_val st2)\<rparr>"
    using assms by (auto simp: outer_body_def split: sum.splits)
  from deref_keeps [OF 1] deref_keeps [OF 2] show ?thesis by (simp add: 3)
qed

lemma outer_body_terminal:
  assumes ct: "c_typed g rank"
    and b: "outer_body g shape st = Inr st'"
    and same: "get_type g (l_val st') = get_type g (l_val st)"
  shows "terminal (get_type g (l_val st))"
proof -
  let ?s = "st\<lparr>l_arr_type := get_type g (l_val st), l_old_type := Some (get_type g (l_val st))\<rparr>"
  obtain st1 st2 where 1: "deref g ptr_list shape ?s = Inr st1"
    and 2: "deref g container_list shape st1 = Inr st2"
    and 3: "st' = st2\<lparr>l_arr_type := get_type g (l_val st2)\<rparr>"
    using b by (auto simp: outer_body_def split: sum.splits)
  have r1: "rank (type_name g (l_val st1)) < rank (type_name g (l_val st)) \<or>
            (st1 = ?s \<and> (\<forall>r \<in> set ptr_list. \<not> pattern_search r (get_type g (l_val st))))"
    using deref_rank [OF ct 1] by simp
  have r2: "rank (type_name g (l_val st2)) < rank (type_name g (l_val st1)) \<or>
            (st2 = st1 \<and> (\<forall>r \<in> set container_list. \<not> pattern_search r (get_type g (l_val st1))))"
    using deref_rank [OF ct 2] by simp
  have eq: "rank (type_name g (l_val st2)) = rank (type_name g (l_val st))"
    using same by (simp add: 3 get_type_def)
  have le1: "rank (type_name g (l_val st1)) \<le> rank (type_name g (l_val st))"
    using r1 by auto
  have le2: "rank (type_name g (l_val st2)) \<le> rank (type_name g (l_val st1))"
    using r2 by auto
  have a: "st1 = ?s \<and> (\<forall>r \<in> set ptr_list. \<not> pattern_search r (get_type g (l_val st)))"
    using r1 le2 eq by auto
  then have v1: "l_val st1 = l_val st" by (metis (no_types) locals.select_convs(1) locals.surjective locals.update_convs(2,3))
  have c: "\<forall>r \<in> set container_list. \<not> pattern_search r (get_type g (l_val st1))"
    using r2 le1 eq by auto
  show ?thesis using a c v1 by (simp add: terminal_def ptr_list_def container_list_def)
qed

lemma reaches_exit_terminal:
  assumes ct: "c_typed g rank"
    and r: "walk_reaches g shape st0 st"
    and n: "l_old_type st0 = None"
    and ex: "Some (l_arr_type st) = l_old_type st"
  shows "terminal (l_arr_type st)"
  using r
proof (cases rule: walk_reaches.cases)
  case start
  then show ?thesis using n ex by simp
next
  case (step s)
  from outer_body_types [OF step(3)] ex
  have same: "get_type g (l_val st) = get_type g (l_val s)"
    and a: "l_arr_type st = get_type g (l_val s)"
    by auto
  from outer_body_terminal [OF ct step(3) same] a show ?thesis by simp
qed

lemma outer_loop_exit:
  "outer_loop g shape st = Some y \<Longrightarrow> y = Inr st' \<Longrightarrow> Some (l_arr_type st') = l_old_type st'"
proof (induction arbitrary: st' rule: outer_loop.raw_induct [rotated 1, consumes 1])
  case (1 loop g shape st y)
  show ?case
  proof (cases "Some (l_arr_type st) \<noteq> l_old_type st")
    case False
    then have "y = Inr st" using "1.hyps" by simp
    then show ?thesis using "1.prems" False by auto
  next
    case True
    then obtain st1 where l: "loop g shape st1 = Some y"
      using "1.hyps" "1.prems"
      by (auto simp: inner_loop_once split: sum.splits)
    from "1.IH" [OF l "1.prems"] show ?thesis .
  qed
qed

text \<open>
  C4.  When \<^verbatim>\<open>_get_deref_funcs\<close> returns for the variable's value, there is one
  arity per step and the arities add up to the number of bounds.  If the debugger
  is typed as C is (the type of a child depends on the type of its parent only,
  and every access a layer makes goes down in the nesting of the type), then the
  type name returned is terminal (none of the three layer patterns matches it),
  and for every index tuple of the Cartesian product of the bounds' ranges the
  replay of \<^verbatim>\<open>to_array\<close>, each step taking its arity of entries in order, succeeds and
  ends in a value of that terminal type.
\<close>

theorem C4_composition_invariant:
  assumes w: "get_deref_funcs g root shape = Some (Inr ((fs, an, bs, dt), out))"
  shows "length fs = length an \<and> sum_list an = length bs \<and>
         (c_typed g rank \<longrightarrow>
            terminal dt \<and>
            (\<forall>idx \<in> set (product_lists (map py_range bs)).
               \<exists>v. replay g (zip fs an) 0 root idx = Inr v \<and> type_name g v = dt \<and>
                    terminal (type_name g v)))"
proof -
  obtain st where l: "outer_loop g shape (init_locals g root shape) = Some (Inr st)"
    and r: "fs = l_deref_func st" "an = l_arg_no st" "bs = l_bounds st" "dt = l_arr_type st"
    using w by (auto simp: get_deref_funcs_init split: option.splits sum.splits)
  have reach: "walk_reaches g shape (init_locals g root shape) st"
    using l by (rule outer_loop_reaches) simp
  have ex: "Some (l_arr_type st) = l_old_type st"
    using l by (rule outer_loop_exit) simp
  have inv: "walk_inv g root st" and ty: "l_arr_type st = get_type g (l_val st)"
    using reaches_inv [OF reach, of root]
    by (simp_all add: walk_inv_init) (simp_all add: init_locals_def)
  have t: "terminal dt" if "c_typed g rank"
    using reaches_exit_terminal [OF that reach _ ex] by (simp add: r init_locals_def)
  have "\<exists>v. replay g (zip fs an) 0 root idx = Inr v \<and> type_name g v = dt \<and>
             terminal (type_name g v)"
    if ct: "c_typed g rank" and "idx \<in> set (product_lists (map py_range bs))" for idx
  proof -
    have "length idx = length bs"
      using in_set_product_lists_length [OF that(2)] by simp
    then have "\<exists>v. replay g (zip fs an) 0 root idx = Inr v \<and> type_name g v = dt"
      using inv c_typed_static [OF ct] ty by (auto simp: walk_inv_def r get_type_def)
    then show ?thesis using t [OF ct] by auto
  qed
  then show ?thesis using inv t by (auto simp: walk_inv_def r)
qed

lemma fst_strict_index:
  "fst (strict_index v i) = (case elem_type (fst v) of None \<Rightarrow> [] | Some u \<Rightarrow> u)"
  by (simp add: strict_index_def)

lemma fst_demo_field:
  "fst (demo_field v f) = (case member_type (fst v, f) of None \<Rightarrow> fst v | Some u \<Rightarrow> u)"
  by (simp add: demo_field_def)

lemma strict_gdb_sel:
  "type_name strict_gdb = fst" "index strict_gdb = strict_index" "field strict_gdb = demo_field"
  by (simp_all add: strict_gdb_def demo_gdb_def)

lemma elem_type_Some: "elem_type t = Some u \<Longrightarrow> length u < length t"
  by (auto simp: elem_type_def split: if_splits)

lemma elem_type_shorter:
  "t \<noteq> [] \<Longrightarrow> length (case elem_type t of None \<Rightarrow> [] | Some u \<Rightarrow> u) < length t"
  by (cases "elem_type t") (simp_all add: elem_type_Some)

lemma impl_not_vec:
  "\<not> vec_search ''std::_Vector_base<int, std::allocator<int> >::_Vector_impl''"
  by (simp add: vec_search_def)

lemma vec_elem_shorter:
  assumes "vec_search t"
  shows "length (fst (strict_index (demo_field (demo_field (t, p) ''_M_impl'') ''_M_start'') i))
           < length t"
proof (cases "t = ''std::vector<int, std::allocator<int> >''")
  case True
  then show ?thesis
    by (simp add: fst_strict_index fst_demo_field member_type_def elem_type_def)
next
  case False
  have ni: "t \<noteq> ''std::_Vector_base<int, std::allocator<int> >::_Vector_impl''"
    using assms impl_not_vec by (intro notI) simp
  have m: "member_type (t, f) = None" for f
    using False ni by (simp add: member_type_def)
  have "t \<noteq> []" using assms by (intro notI) (simp add: vec_search_def)
  then show ?thesis
    using elem_type_shorter [of t] by (simp add: fst_strict_index fst_demo_field m)
qed

lemma strict_c_typed: "c_typed strict_gdb length"
proof -
  have s: "static_typed strict_gdb"
    by (simp add: static_typed_def strict_gdb_sel fst_strict_index fst_demo_field
        cong del: option.case_cong)
  have i: "length (fst (strict_index v i)) < length (fst v)"
    if "ptr_search (fst v) \<or> arr_search (fst v) \<noteq> None" for v i
  proof -
    have "fst v \<noteq> []" using that by auto
    then show ?thesis using elem_type_shorter [of "fst v"] by (simp add: fst_strict_index)
  qed
  have f: "length (fst (strict_index (demo_field (demo_field v ''_M_impl'') ''_M_start'') i))
             < length (fst v)"
    if "vec_search (fst v)" for v i
    using vec_elem_shorter [OF that, of "snd v" i] by simp
  show ?thesis
    unfolding c_typed_def strict_gdb_sel using s i f by (simp add: strict_gdb_sel)
qed

theorem C4_composition_invariant_witness:
  "c_typed strict_gdb length \<and>
   get_deref_funcs strict_gdb (''int *[2]'', []) (Some [5]) =
     Some (Inr (([DeRefArr, DeRefPtr], [1, 1], [2, 5], ''int''), [])) \<and>
   sum_list [1, 1 :: nat] = length [2, 5 :: int] \<and>
   terminal ''int'' \<and>
   [1, 4] \<in> set (product_lists (map py_range [2, 5])) \<and>
   (\<exists>v. replay strict_gdb (zip [DeRefArr, DeRefPtr] [1, 1]) 0 (''int *[2]'', []) [1, 4] = Inr v \<and>
        type_name strict_gdb v = ''int'' \<and> terminal (type_name strict_gdb v))"
proof -
  let ?g = "strict_gdb"
  have w: "get_deref_funcs ?g (''int *[2]'', []) (Some [5]) =
     Some (Inr (([DeRefArr, DeRefPtr], [1, 1], [2, 5], ''int''), []))"
    using walk_arr_ptr [of ?g "(''int *[2]'', [])" "''int''" "''2''" 2 5]
    by (simp add: strict_gdb_def strict_index_def demo_simps groups_of_def type_list_def
        py_int_def is_digit_def digit_val_def)
  have m: "[1, 4] \<in> set (product_lists (map py_range [2, 5]))"
    by (simp add: in_product2_iff in_py_range del: product_lists.simps)
  note inst = C4_composition_invariant [OF w, of length]
  note body = mp [OF conjunct2 [OF conjunct2 [OF inst]] strict_c_typed]
  have t: "terminal ''int''" by (rule conjunct1 [OF body])
  have a: "\<forall>idx \<in> set (product_lists (map py_range [2, 5])).
               \<exists>v. replay ?g (zip [DeRefArr, DeRefPtr] [1, 1]) 0 (''int *[2]'', []) idx = Inr v \<and>
                    type_name ?g v = ''int'' \<and> terminal (type_name ?g v)"
    by (rule conjunct2 [OF body])
  from bspec [OF a m]
  have r: "\<exists>v. replay ?g (zip [DeRefArr, DeRefPtr] [1, 1]) 0 (''int *[2]'', []) [1, 4] = Inr v \<and>
        type_name ?g v = ''int'' \<and> terminal (type_name ?g v)" .
  have s: "sum_list [1, 1 :: nat] = length [2, 5 :: int]" by simp
  show ?thesis using strict_c_typed w s t m r by (intro conjI)
qed

end
